theory Spec2Isabelle
  imports Complex_Main "HOL-Library.AList" "HOL-Library.Char_ord" "HOL-Library.List_Lexorder"
begin

section \<open>Posts and the post store (modules/post\_manager.py)\<close>

text \<open>
  A post is the dictionary built by \<open>PostManager.create_post\<close>. Python strings are
  modelled by their UTF-8 bytes; \<open>None\<close> is \<open>None\<close>. The key \<open>id\<close> is the field
  \<open>post_id\<close>, the key \<open>text\<close> is the field \<open>post_text\<close>.
\<close>

record post =
  post_id :: string
  account_id :: string
  post_text :: string
  media :: "string list"
  format :: string
  status :: string
  scheduled_time :: "string option"
  created_at :: string
  published_at :: "string option"
  error :: "string option"

text \<open>The table \<open>POST_STATUS\<close> of config.py.\<close>

abbreviation POST_STATUS_DRAFT :: string where "POST_STATUS_DRAFT \<equiv> ''draft''"
abbreviation POST_STATUS_SCHEDULED :: string where "POST_STATUS_SCHEDULED \<equiv> ''scheduled''"
abbreviation POST_STATUS_PUBLISHED :: string where "POST_STATUS_PUBLISHED \<equiv> ''published''"
abbreviation POST_STATUS_ERROR :: string where "POST_STATUS_ERROR \<equiv> ''error''"

text \<open>
  The three status directories of config.py. A directory is an association list from the
  post identifier (the file \<open>{id}.json\<close>) to the post written there; the store is the
  content of the three directories.
\<close>

datatype path = DRAFTS_DIR | SCHEDULED_DIR | PUBLISHED_DIR

type_synonym directory = "(string \<times> post) list"

type_synonym store = "path \<Rightarrow> directory"

definition get_status_dir :: "string \<Rightarrow> path" where
  "get_status_dir st =
     (if st = POST_STATUS_DRAFT then DRAFTS_DIR
      else if st = POST_STATUS_SCHEDULED then SCHEDULED_DIR
      else if st = POST_STATUS_PUBLISHED then PUBLISHED_DIR
      else DRAFTS_DIR)"

definition save_post :: "post \<Rightarrow> store \<Rightarrow> store" where
  "save_post p s =
     (let status_dir = get_status_dir (status p)
      in s(status_dir := AList.update (post_id p) p (s status_dir)))"

definition delete_post_file :: "string \<Rightarrow> string \<Rightarrow> store \<Rightarrow> store" where
  "delete_post_file pid st s =
     (let status_dir = get_status_dir st
      in s(status_dir := AList.delete pid (s status_dir)))"

text \<open>\<open>get_post\<close> searches drafts, then scheduled, then published.\<close>

definition get_post :: "store \<Rightarrow> string \<Rightarrow> post option" where
  "get_post s pid =
     (case map_of (s DRAFTS_DIR) pid of
        Some p \<Rightarrow> Some p
      | None \<Rightarrow>
         (case map_of (s SCHEDULED_DIR) pid of
            Some p \<Rightarrow> Some p
          | None \<Rightarrow> map_of (s PUBLISHED_DIR) pid))"

text \<open>
  \<open>create_post\<close>: \<open>new_id\<close> is the value of \<open>str(uuid.uuid4())\<close>, \<open>now_iso\<close> the value
  of \<open>datetime.now().isoformat()\<close>. The result is the post and the store after
  \<open>_save_post\<close>.
\<close>

definition create_post ::
  "string \<Rightarrow> string \<Rightarrow> string \<Rightarrow> string \<Rightarrow> string list \<Rightarrow> string \<Rightarrow> string
     \<Rightarrow> store \<Rightarrow> post \<times> store" where
  "create_post new_id now_iso acct txt med post_format st s =
     (let post_data = \<lparr>post_id = new_id, account_id = acct, post_text = txt, media = med,
                        format = post_format, status = st, scheduled_time = None,
                        created_at = now_iso, published_at = None, error = None\<rparr>
      in (post_data, save_post post_data s))"

text \<open>
  \<open>update_post\<close>: the dictionary \<open>updates\<close> is the function \<open>upd\<close> that
  \<open>post.update(updates)\<close> applies to the post.
\<close>

definition update_post :: "string \<Rightarrow> (post \<Rightarrow> post) \<Rightarrow> store \<Rightarrow> post option \<times> store" where
  "update_post pid upd s =
     (case get_post s pid of
        None \<Rightarrow> (None, s)
      | Some p \<Rightarrow>
         (let old_status = status p;
              p' = upd p;
              new_status = status p';
              s1 = (if old_status \<noteq> new_status then delete_post_file pid old_status s else s)
          in (Some p', save_post p' s1)))"

definition schedule_post :: "string \<Rightarrow> string \<Rightarrow> store \<Rightarrow> post option \<times> store" where
  "schedule_post pid stime s =
     (case get_post s pid of
        None \<Rightarrow> (None, s)
      | Some p \<Rightarrow>
         (let s1 = (if status p = POST_STATUS_DRAFT
                    then delete_post_file pid POST_STATUS_DRAFT s else s);
              p' = p\<lparr>status := POST_STATUS_SCHEDULED, scheduled_time := Some stime\<rparr>
          in (Some p', save_post p' s1)))"

definition publish_post :: "string \<Rightarrow> string \<Rightarrow> store \<Rightarrow> post option \<times> store" where
  "publish_post now_iso pid s =
     (case get_post s pid of
        None \<Rightarrow> (None, s)
      | Some p \<Rightarrow>
         (let s1 = (if status p = POST_STATUS_SCHEDULED
                    then delete_post_file pid POST_STATUS_SCHEDULED s else s);
              p' = p\<lparr>status := POST_STATUS_PUBLISHED, published_at := Some now_iso\<rparr>
          in (Some p', save_post p' s1)))"

definition mark_post_error :: "string \<Rightarrow> string \<Rightarrow> store \<Rightarrow> post option \<times> store" where
  "mark_post_error pid err s =
     (case get_post s pid of
        None \<Rightarrow> (None, s)
      | Some p \<Rightarrow>
         (let p' = p\<lparr>status := POST_STATUS_ERROR, error := Some err\<rparr>
          in (Some p', save_post p' s)))"

definition delete_post :: "string \<Rightarrow> store \<Rightarrow> store" where
  "delete_post pid s =
     (case get_post s pid of
        None \<Rightarrow> s
      | Some p \<Rightarrow> delete_post_file pid (status p) s)"

text \<open>The status partitions that hold a file for the identifier.\<close>

definition partitions_of :: "store \<Rightarrow> string \<Rightarrow> path list" where
  "partitions_of s pid =
     filter (\<lambda>d. map_of (s d) pid \<noteq> None) [DRAFTS_DIR, SCHEDULED_DIR, PUBLISHED_DIR]"

section \<open>Naive datetimes (the datetime objects the code computes with)\<close>

text \<open>
  A naive \<open>datetime\<close> is the number of microseconds since midnight of the first day of
  the calendar; \<open>date()\<close> is the day number, and the clock fields are read off by
  division. A \<open>timedelta\<close> is a number of microseconds. Year, month and day are only
  needed by \<open>isoformat\<close> and by the parsers, which are library functions and are taken
  as parameters. Python floats are modelled by exact rationals.
\<close>

type_synonym datetime = int

definition date_of :: "datetime \<Rightarrow> int" where
  "date_of t = t div 86400000000"

definition hour :: "datetime \<Rightarrow> int" where
  "hour t = (t mod 86400000000) div 3600000000"

definition minute :: "datetime \<Rightarrow> int" where
  "minute t = (t mod 3600000000) div 60000000"

definition second :: "datetime \<Rightarrow> int" where
  "second t = (t mod 60000000) div 1000000"

definition microsecond :: "datetime \<Rightarrow> int" where
  "microsecond t = t mod 1000000"

definition mk_datetime :: "int \<Rightarrow> int \<Rightarrow> int \<Rightarrow> int \<Rightarrow> int \<Rightarrow> datetime" where
  "mk_datetime d h m s us = d * 86400000000 + h * 3600000000 + m * 60000000 + s * 1000000 + us"

text \<open>\<open>dt.replace(hour=, minute=, second=, microsecond=)\<close>; \<open>None\<close> keeps the field.\<close>

definition replace ::
  "datetime \<Rightarrow> int option \<Rightarrow> int option \<Rightarrow> int option \<Rightarrow> int option \<Rightarrow> datetime" where
  "replace t h m s us =
     mk_datetime (date_of t)
       (case h of None \<Rightarrow> hour t | Some x \<Rightarrow> x)
       (case m of None \<Rightarrow> minute t | Some x \<Rightarrow> x)
       (case s of None \<Rightarrow> second t | Some x \<Rightarrow> x)
       (case us of None \<Rightarrow> microsecond t | Some x \<Rightarrow> x)"

text \<open>
  \<open>timedelta(minutes=x)\<close> with a float \<open>x\<close> rounds to the nearest microsecond, ties to
  even.
\<close>

definition round_half_even :: "rat \<Rightarrow> int" where
  "round_half_even x =
     (let f = \<lfloor>x\<rfloor>; d = x - of_int f
      in if d < 1 / 2 then f
         else if 1 / 2 < d then f + 1
         else if even f then f else f + 1)"

definition timedelta_minutes :: "rat \<Rightarrow> int" where
  "timedelta_minutes x = round_half_even (x * 60000000)"

definition timedelta_days :: "int \<Rightarrow> int" where
  "timedelta_days n = n * 86400000000"

definition total_seconds :: "int \<Rightarrow> rat" where
  "total_seconds d = of_int d / 1000000"

datatype exn = ValueError string | ZeroDivisionError

section \<open>The scheduler (modules/scheduler.py)\<close>

definition POSTING_START_HOUR :: int where "POSTING_START_HOUR = 8"
definition POSTING_END_HOUR :: int where "POSTING_END_HOUR = 23"
definition min_post_interval :: int where "min_post_interval = 30"

text \<open>
  The loop \<open>for i in range(posts_count)\<close> of \<open>_distribute_posts_in_day\<close>: \<open>break\<close> at
  the first time at or after the end hour, \<open>continue\<close> over a time that is not after
  \<open>now\<close>.
\<close>

fun distribute_loop :: "datetime \<Rightarrow> datetime \<Rightarrow> rat \<Rightarrow> int list \<Rightarrow> datetime list" where
  "distribute_loop now start_time interval [] = []"
| "distribute_loop now start_time interval (i # rest) =
     (let stime = start_time + timedelta_minutes (interval * of_int i)
      in if POSTING_END_HOUR \<le> hour stime then []
         else if stime \<le> now then distribute_loop now start_time interval rest
         else stime # distribute_loop now start_time interval rest)"

text \<open>
  \<open>_distribute_posts_in_day\<close>; \<open>now\<close> is the reading of \<open>datetime.now()\<close> in the call.
  The division by \<open>posts_count\<close> raises \<open>ZeroDivisionError\<close> at zero.
\<close>

definition distribute_posts_in_day :: "datetime \<Rightarrow> datetime \<Rightarrow> int \<Rightarrow> exn + datetime list" where
  "distribute_posts_in_day now start_date posts_count =
     (let start_time0 = replace start_date (Some POSTING_START_HOUR) (Some 0) None None;
          end_time0 = replace start_date (Some POSTING_END_HOUR) (Some 0) None None;
          start_time1 =
            (if date_of start_time0 = date_of now \<and> start_time0 < now
             then (let st = now + timedelta_minutes (of_int min_post_interval);
                       st' = replace st None None (Some 0) (Some 0);
                       minute' = (minute st' div 5) * 5
                   in replace st' None (Some minute') None None)
             else start_time0);
          total_minutes1 = total_seconds (end_time0 - start_time1) / 60;
          min_interval = min_post_interval;
          required_minutes = posts_count * min_interval;
          start_time =
            (if total_minutes1 < of_int required_minutes
             then replace (start_time1 + timedelta_days 1) (Some POSTING_START_HOUR) (Some 0) None None
             else start_time1);
          end_time =
            (if total_minutes1 < of_int required_minutes
             then replace start_time (Some POSTING_END_HOUR) (Some 0) None None
             else end_time0);
          total_minutes =
            (if total_minutes1 < of_int required_minutes
             then total_seconds (end_time - start_time) / 60
             else total_minutes1)
      in if posts_count = 0 then Inl ZeroDivisionError
         else
           (let interval0 = total_minutes / of_int posts_count;
                interval = (if interval0 < of_int min_interval then of_int min_interval else interval0)
            in Inr (distribute_loop now start_time interval [0..posts_count - 1])))"

text \<open>
  The schedule \<open>self.schedule\<close>: a dictionary from the account identifier to the list of
  its entries.
\<close>

record schedule_entry =
  entry_post_id :: string
  entry_scheduled_time :: string
  entry_status :: string

type_synonym schedule = "string \<Rightarrow> schedule_entry list option"

text \<open>
  The loop \<open>for scheduled_time in scheduled_times\<close> of \<open>schedule_posts_for_account\<close>. The
  state is the store, the schedule, the list \<open>scheduled_posts\<close> and \<open>post_index\<close>;
  \<open>isoformat\<close> is the library's \<open>datetime.isoformat\<close>.
\<close>

fun schedule_times ::
  "(datetime \<Rightarrow> string) \<Rightarrow> string \<Rightarrow> string list \<Rightarrow> datetime list
     \<Rightarrow> store \<times> schedule \<times> post list \<times> nat \<Rightarrow> store \<times> schedule \<times> post list \<times> nat" where
  "schedule_times isoformat account post_ids [] st = st"
| "schedule_times isoformat account post_ids (stime # rest) (s, sch, scheduled_posts, post_index) =
     (if length post_ids \<le> post_index then (s, sch, scheduled_posts, post_index)
      else
        (let pid = post_ids ! post_index
         in case schedule_post pid (isoformat stime) s of
              (None, s') \<Rightarrow>
                schedule_times isoformat account post_ids rest
                  (s', sch, scheduled_posts, post_index + 1)
            | (Some p, s') \<Rightarrow>
                schedule_times isoformat account post_ids rest
                  (s',
                   sch(account \<mapsto>
                     (case sch account of None \<Rightarrow> [] | Some es \<Rightarrow> es)
                       @ [\<lparr>entry_post_id = pid,
                           entry_scheduled_time = isoformat stime,
                           entry_status = ''scheduled''\<rparr>]),
                   scheduled_posts @ [p], post_index + 1)))"

text \<open>
  The loop \<open>while post_index < total_posts\<close>. It need not end (a negative
  \<open>posts_per_day\<close> gives empty days forever), so it runs on fuel: \<open>None\<close> is a run that
  has not returned within the fuel. \<open>day_now d\<close> is the reading of \<open>datetime.now()\<close> in
  the call of \<open>_distribute_posts_in_day\<close> for day \<open>d\<close>.
\<close>

fun schedule_loop ::
  "nat \<Rightarrow> (datetime \<Rightarrow> string) \<Rightarrow> (int \<Rightarrow> datetime) \<Rightarrow> string \<Rightarrow> string list \<Rightarrow> int
     \<Rightarrow> datetime \<Rightarrow> int \<Rightarrow> store \<times> schedule \<times> post list \<times> nat
     \<Rightarrow> (exn + store \<times> schedule \<times> post list \<times> nat) option" where
  "schedule_loop fuel isoformat day_now account post_ids posts_per_day start_time current_day
       (s, sch, scheduled_posts, post_index) =
     (if post_index < length post_ids then
        (case fuel of
           0 \<Rightarrow> None
         | Suc fuel' \<Rightarrow>
            (let posts_today = min posts_per_day (int (length post_ids) - int post_index)
             in case distribute_posts_in_day (day_now current_day)
                       (start_time + timedelta_days current_day) posts_today of
                  Inl e \<Rightarrow> Some (Inl e)
                | Inr scheduled_times \<Rightarrow>
                    schedule_loop fuel' isoformat day_now account post_ids posts_per_day
                      start_time (current_day + 1)
                      (schedule_times isoformat account post_ids scheduled_times
                         (s, sch, scheduled_posts, post_index))))
      else Some (Inr (s, sch, scheduled_posts, post_index)))"

text \<open>
  \<open>schedule_posts_for_account\<close>. \<open>now_default\<close> is the reading of the clock that
  replaces a missing \<open>start_date\<close>, \<open>now\<close> the reading after it. The integer division
  for \<open>days_needed\<close> raises \<open>ZeroDivisionError\<close> when \<open>posts_per_day\<close> is zero. The
  result is the list \<open>scheduled_posts\<close> with the store and the schedule after the call.
\<close>

definition schedule_posts_for_account ::
  "nat \<Rightarrow> (datetime \<Rightarrow> string) \<Rightarrow> datetime \<Rightarrow> datetime \<Rightarrow> (int \<Rightarrow> datetime)
     \<Rightarrow> string \<Rightarrow> string list \<Rightarrow> int \<Rightarrow> datetime option \<Rightarrow> store \<times> schedule
     \<Rightarrow> (exn + post list \<times> store \<times> schedule) option" where
  "schedule_posts_for_account fuel isoformat now_default now day_now account post_ids
       posts_per_day start_date st =
     (let start_date' = (case start_date of None \<Rightarrow> now_default | Some d \<Rightarrow> d);
          start_time0 = replace start_date' None (Some 0) (Some 0) (Some 0);
          start_time1 = (if start_time0 < now then now else start_time0);
          start_time =
            (if hour start_time1 < POSTING_START_HOUR
             then replace start_time1 (Some POSTING_START_HOUR) (Some 0) None None
             else if POSTING_END_HOUR \<le> hour start_time1
             then replace (start_time1 + timedelta_days 1) (Some POSTING_START_HOUR) (Some 0) None None
             else start_time1 + timedelta_minutes (of_int min_post_interval))
      in if posts_per_day = 0 then Some (Inl ZeroDivisionError)
         else
           (case schedule_loop fuel isoformat day_now account post_ids posts_per_day start_time 0
                   (fst st, snd st, [], 0) of
              None \<Rightarrow> None
            | Some (Inl e) \<Rightarrow> Some (Inl e)
            | Some (Inr (s', sch', scheduled_posts, post_index)) \<Rightarrow>
                Some (Inr (scheduled_posts, s', sch'))))"

definition get_scheduled_posts_for_account :: "schedule \<Rightarrow> string \<Rightarrow> schedule_entry list" where
  "get_scheduled_posts_for_account sch account =
     (case sch account of None \<Rightarrow> [] | Some items \<Rightarrow> items)"

definition remove_from_schedule :: "string \<Rightarrow> schedule \<Rightarrow> schedule" where
  "remove_from_schedule pid sch =
     (\<lambda>account. map_option (filter (\<lambda>item. entry_post_id item \<noteq> pid)) (sch account))"

definition mark_as_published :: "string \<Rightarrow> schedule \<Rightarrow> schedule" where
  "mark_as_published pid sch =
     (\<lambda>account. map_option
        (map (\<lambda>item. if entry_post_id item = pid
                      then item\<lparr>entry_status := ''published''\<rparr> else item))
        (sch account))"

section \<open>Parsing stored times (utils/datetime\_helper.py)\<close>

text \<open>
  What a parser returns: a naive datetime, or an aware one (when the string carries a UTC
  offset), given by its wall-clock value and its offset.
\<close>

datatype pydatetime = Naive datetime | Aware datetime int

definition endswith_Z :: "string \<Rightarrow> bool" where
  "endswith_Z s = (s \<noteq> [] \<and> last s = CHR ''Z'')"

text \<open>
  The loop over \<open>formats_to_try\<close>. The library functions are parameters:
  \<open>fromisoformat\<close> is \<open>datetime.fromisoformat\<close> and \<open>strptime\<close> is
  \<open>datetime.strptime\<close>, with \<open>None\<close> for a \<open>ValueError\<close>.
\<close>

definition could_not_parse :: string where
  "could_not_parse =
    [CHR 0xD0, CHR 0x9D, CHR 0xD0, CHR 0xB5, CHR 0x20, CHR 0xD1, CHR 0x83, CHR 0xD0,
     CHR 0xB4, CHR 0xD0, CHR 0xB0, CHR 0xD0, CHR 0xBB, CHR 0xD0, CHR 0xBE, CHR 0xD1,
     CHR 0x81, CHR 0xD1, CHR 0x8C, CHR 0x20, CHR 0xD1, CHR 0x80, CHR 0xD0, CHR 0xB0,
     CHR 0xD1, CHR 0x81, CHR 0xD0, CHR 0xBF, CHR 0xD0, CHR 0xB0, CHR 0xD1, CHR 0x80,
     CHR 0xD1, CHR 0x81, CHR 0xD0, CHR 0xB8, CHR 0xD1, CHR 0x82, CHR 0xD1, CHR 0x8C,
     CHR 0x20, CHR 0xD0, CHR 0xB2, CHR 0xD1, CHR 0x80, CHR 0xD0, CHR 0xB5, CHR 0xD0,
     CHR 0xBC, CHR 0xD1, CHR 0x8F, CHR 0x3A, CHR 0x20]"

fun try_formats ::
  "(string \<Rightarrow> pydatetime option) \<Rightarrow> (string \<Rightarrow> string \<Rightarrow> datetime option) \<Rightarrow> string
     \<Rightarrow> string option list \<Rightarrow> exn + pydatetime" where
  "try_formats fromisoformat strptime iso_string [] =
     Inl (ValueError (could_not_parse @ iso_string))"
| "try_formats fromisoformat strptime iso_string (None # fmts) =
     (case fromisoformat iso_string of
        Some d \<Rightarrow> Inr d
      | None \<Rightarrow> try_formats fromisoformat strptime iso_string fmts)"
| "try_formats fromisoformat strptime iso_string (Some fmt # fmts) =
     (case strptime iso_string fmt of
        Some d \<Rightarrow> Inr (Naive d)
      | None \<Rightarrow> try_formats fromisoformat strptime iso_string fmts)"

definition formats_to_try :: "string option list" where
  "formats_to_try =
     [None, Some ''%Y-%m-%dT%H:%M'', Some ''%Y-%m-%dT%H:%M:%S'', Some ''%Y-%m-%dT%H:%M:%S.%f'']"

text \<open>
  \<open>parse_iso_datetime\<close>; \<open>re_sub_millis\<close> is the library call
  \<open>re.sub(r'\.\d{3}$', '', _)\<close>.
\<close>

definition parse_iso_datetime ::
  "(string \<Rightarrow> pydatetime option) \<Rightarrow> (string \<Rightarrow> string \<Rightarrow> datetime option) \<Rightarrow> (string \<Rightarrow> string)
     \<Rightarrow> string \<Rightarrow> exn + pydatetime" where
  "parse_iso_datetime fromisoformat strptime re_sub_millis iso_string =
     (if iso_string = [] then Inl (ValueError ''ISO string is empty'')
      else
        (let s1 = (if endswith_Z iso_string then butlast iso_string else iso_string);
             s2 = re_sub_millis s1
         in try_formats fromisoformat strptime s2 formats_to_try))"

section \<open>The background publisher (background\_publisher.py)\<close>

text \<open>\<open>sub in s\<close> on strings.\<close>

fun startswith :: "string \<Rightarrow> string \<Rightarrow> bool" where
  "startswith s [] = True"
| "startswith [] (c # cs) = False"
| "startswith (x # xs) (c # cs) = (x = c \<and> startswith xs cs)"

fun contains :: "string \<Rightarrow> string \<Rightarrow> bool" where
  "contains [] sub = (sub = [])"
| "contains (x # xs) sub = (startswith (x # xs) sub \<or> contains xs sub)"

definition too_early_marker :: string where
  "too_early_marker =
    [CHR 0xD0, CHR 0xA1, CHR 0xD0, CHR 0xBB, CHR 0xD0, CHR 0xB8, CHR 0xD1, CHR 0x88,
     CHR 0xD0, CHR 0xBA, CHR 0xD0, CHR 0xBE, CHR 0xD0, CHR 0xBC, CHR 0x20, CHR 0xD1,
     CHR 0x80, CHR 0xD0, CHR 0xB0, CHR 0xD0, CHR 0xBD, CHR 0xD0, CHR 0xBE]"

definition missed_note :: string where
  "missed_note =
    [CHR 0xD0, CHR 0x9F, CHR 0xD1, CHR 0x80, CHR 0xD0, CHR 0xBE, CHR 0xD0, CHR 0xBF,
     CHR 0xD1, CHR 0x83, CHR 0xD1, CHR 0x89, CHR 0xD0, CHR 0xB5, CHR 0xD0, CHR 0xBD,
     CHR 0xD0, CHR 0xB0, CHR 0x20, CHR 0xD0, CHR 0xB7, CHR 0xD0, CHR 0xB0, CHR 0xD0,
     CHR 0xBF, CHR 0xD0, CHR 0xBB, CHR 0xD0, CHR 0xB0, CHR 0xD0, CHR 0xBD, CHR 0xD0,
     CHR 0xB8, CHR 0xD1, CHR 0x80, CHR 0xD0, CHR 0xBE, CHR 0xD0, CHR 0xB2, CHR 0xD0,
     CHR 0xB0, CHR 0xD0, CHR 0xBD, CHR 0xD0, CHR 0xBD, CHR 0xD0, CHR 0xB0, CHR 0xD1,
     CHR 0x8F, CHR 0x20, CHR 0xD0, CHR 0xBF, CHR 0xD1, CHR 0x83, CHR 0xD0, CHR 0xB1,
     CHR 0xD0, CHR 0xBB, CHR 0xD0, CHR 0xB8, CHR 0xD0, CHR 0xBA, CHR 0xD0, CHR 0xB0,
     CHR 0xD1, CHR 0x86, CHR 0xD0, CHR 0xB8, CHR 0xD1, CHR 0x8F, CHR 0x20, CHR 0x28,
     CHR 0xD1, CHR 0x81, CHR 0xD0, CHR 0xB5, CHR 0xD1, CHR 0x80, CHR 0xD0, CHR 0xB2,
     CHR 0xD0, CHR 0xB5, CHR 0xD1, CHR 0x80, CHR 0x20, CHR 0xD0, CHR 0xB1, CHR 0xD1,
     CHR 0x8B, CHR 0xD0, CHR 0xBB, CHR 0x20, CHR 0xD0, CHR 0xB2, CHR 0xD1, CHR 0x8B,
     CHR 0xD0, CHR 0xBA, CHR 0xD0, CHR 0xBB, CHR 0xD1, CHR 0x8E, CHR 0xD1, CHR 0x87,
     CHR 0xD0, CHR 0xB5, CHR 0xD0, CHR 0xBD, CHR 0x29]"

text \<open>
  \<open>get_all_posts(status)\<close>: the files of the status directory, or of all three
  directories when no status is given (\<open>None\<close> or the empty string), sorted by
  \<open>created_at\<close>, latest first; \<open>sort\<close> with \<open>reverse=True\<close> is stable. The files of
  a directory are listed in the order of the association list.
\<close>

definition get_all_posts :: "string option \<Rightarrow> store \<Rightarrow> post list" where
  "get_all_posts st s =
     (let dirs_to_search =
            (case st of
               None \<Rightarrow> [DRAFTS_DIR, SCHEDULED_DIR, PUBLISHED_DIR]
             | Some x \<Rightarrow>
                 if x = [] then [DRAFTS_DIR, SCHEDULED_DIR, PUBLISHED_DIR]
                 else [get_status_dir x]);
          posts = concat (map (\<lambda>status_dir. map snd (s status_dir)) dirs_to_search)
      in rev (sort_key created_at (rev posts)))"

definition get_scheduled_posts :: "store \<Rightarrow> post list" where
  "get_scheduled_posts s = get_all_posts (Some POST_STATUS_SCHEDULED) s"

text \<open>
  What the \<open>try\<close> block of \<open>_publish_post\<close> does up to and including the upload: it
  returns, or raises an exception with a message.
\<close>

datatype outcome = Uploaded | Raised string

text \<open>
  \<open>_publish_post\<close>; \<open>lower\<close> is \<open>str.lower\<close>, \<open>now_iso\<close> the value of
  \<open>datetime.now().isoformat()\<close> in \<open>publish_post\<close>.
\<close>

definition publisher_publish_post ::
  "(string \<Rightarrow> string) \<Rightarrow> string \<Rightarrow> outcome \<Rightarrow> post \<Rightarrow> store \<times> schedule \<Rightarrow> store \<times> schedule" where
  "publisher_publish_post lower now_iso res p st =
     (case res of
        Uploaded \<Rightarrow>
          (snd (publish_post now_iso (post_id p) (fst st)), mark_as_published (post_id p) (snd st))
      | Raised error_msg \<Rightarrow>
          (if contains error_msg too_early_marker \<or> contains (lower error_msg) ''wait''
           then st
           else (snd (mark_post_error (post_id p) error_msg (fst st)), snd st)))"

text \<open>The body of the first loop of \<open>_check_and_publish\<close>, for one scheduled post.\<close>

definition scan_post ::
  "(string \<Rightarrow> pydatetime option) \<Rightarrow> (string \<Rightarrow> string \<Rightarrow> datetime option) \<Rightarrow> (string \<Rightarrow> string)
     \<Rightarrow> datetime \<Rightarrow> (post \<times> datetime) list \<times> string list \<Rightarrow> post
     \<Rightarrow> (post \<times> datetime) list \<times> string list" where
  "scan_post fromisoformat strptime re_sub_millis now acc p =
     (let posts_to_publish = fst acc; posts_to_move_to_drafts = snd acc
      in case scheduled_time p of
           None \<Rightarrow> acc
         | Some st \<Rightarrow>
            (if st = [] then acc
             else
               (case parse_iso_datetime fromisoformat strptime re_sub_millis st of
                  Inl e \<Rightarrow> acc
                | Inr (Aware t off) \<Rightarrow> acc
                | Inr (Naive t) \<Rightarrow>
                   (let time_diff = total_seconds (now - t)
                    in if 3600 < time_diff then
                         (posts_to_publish,
                          if post_id p \<in> set posts_to_move_to_drafts
                          then posts_to_move_to_drafts
                          else posts_to_move_to_drafts @ [post_id p])
                       else if - 120 \<le> time_diff \<and> time_diff \<le> 600 then
                         (posts_to_publish @ [(p, t)], posts_to_move_to_drafts)
                       else if time_diff < - 120 then acc
                       else (posts_to_publish @ [(p, t)], posts_to_move_to_drafts)))))"

text \<open>The body of the second loop: a stale post goes back to the drafts.\<close>

definition move_to_drafts :: "store \<times> schedule \<Rightarrow> string \<Rightarrow> store \<times> schedule" where
  "move_to_drafts st pid =
     (case get_post (fst st) pid of
        None \<Rightarrow> st
      | Some p \<Rightarrow>
         (let s1 = delete_post_file pid POST_STATUS_SCHEDULED (fst st);
              p' = p\<lparr>status := POST_STATUS_DRAFT, scheduled_time := None,
                      error := Some missed_note\<rparr>
          in (save_post p' s1, remove_from_schedule pid (snd st))))"

text \<open>
  \<open>_check_and_publish\<close>, one tick of the publisher. \<open>attempt\<close> gives, for the store at
  that moment and the post, what the \<open>try\<close> block of \<open>_publish_post\<close> does.
\<close>

definition check_and_publish ::
  "(string \<Rightarrow> string) \<Rightarrow> (string \<Rightarrow> pydatetime option) \<Rightarrow> (string \<Rightarrow> string \<Rightarrow> datetime option)
     \<Rightarrow> (string \<Rightarrow> string) \<Rightarrow> (store \<Rightarrow> post \<Rightarrow> outcome) \<Rightarrow> datetime \<Rightarrow> string
     \<Rightarrow> store \<times> schedule \<Rightarrow> store \<times> schedule" where
  "check_and_publish lower fromisoformat strptime re_sub_millis attempt now now_iso st =
     (let scheduled_posts = get_scheduled_posts (fst st)
      in if scheduled_posts = [] then st
         else
           (let scanned = foldl (scan_post fromisoformat strptime re_sub_millis now) ([], [])
                            scheduled_posts;
                st1 = foldl move_to_drafts st (snd scanned)
            in foldl (\<lambda>st' (p, t). publisher_publish_post lower now_iso (attempt (fst st') p) p st')
                 st1 (fst scanned)))"


section \<open>Predicates on posts and stores\<close>

text \<open>
  The time fields follow the status: a scheduled post has its scheduled time, a published
  post has its publication time.
\<close>

definition times_follow_status :: "post \<Rightarrow> bool" where
  "times_follow_status p =
     ((status p = POST_STATUS_SCHEDULED \<longrightarrow> scheduled_time p \<noteq> None)
      \<and> (status p = POST_STATUS_PUBLISHED \<longrightarrow> published_at p \<noteq> None))"

definition store_times_follow_status :: "store \<Rightarrow> bool" where
  "store_times_follow_status s =
     list_all (\<lambda>d. list_all (\<lambda>kp. times_follow_status (snd kp)) (s d))
       [DRAFTS_DIR, SCHEDULED_DIR, PUBLISHED_DIR]"

text \<open>
  A well-formed store: in every directory a file name occurs once, and the file
  \<open>{id}.json\<close> holds a post whose \<open>id\<close> is that identifier.
\<close>

definition wf_directory :: "directory \<Rightarrow> bool" where
  "wf_directory dir = (distinct (map fst dir) \<and> list_all (\<lambda>kp. post_id (snd kp) = fst kp) dir)"

definition wf_store :: "store \<Rightarrow> bool" where
  "wf_store s = list_all (\<lambda>d. wf_directory (s d)) [DRAFTS_DIR, SCHEDULED_DIR, PUBLISHED_DIR]"

text \<open>
  The classification of a scheduled post as the specification words it, by
  \<open>time_diff = now - scheduled_time\<close> in seconds; it is compared below with what the loop
  of \<open>_check_and_publish\<close> does.
\<close>

datatype classification = STALE | DUE | PENDING

definition spec_classification :: "rat \<Rightarrow> classification" where
  "spec_classification time_diff =
     (if 3600 < time_diff then STALE
      else if - 120 \<le> time_diff then DUE
      else PENDING)"

text \<open>
  The naive time that the loop of \<open>_check_and_publish\<close> reads off a post, if there is
  one: the scheduled time is present, not empty, and parses to a naive datetime.
\<close>

definition parsed_time ::
  "(string \<Rightarrow> pydatetime option) \<Rightarrow> (string \<Rightarrow> string \<Rightarrow> datetime option) \<Rightarrow> (string \<Rightarrow> string)
     \<Rightarrow> post \<Rightarrow> datetime option" where
  "parsed_time fromisoformat strptime re_sub_millis p =
     (case scheduled_time p of
        None \<Rightarrow> None
      | Some st \<Rightarrow>
         (if st = [] then None
          else
            (case parse_iso_datetime fromisoformat strptime re_sub_millis st of
               Inl e \<Rightarrow> None
             | Inr (Aware t off) \<Rightarrow> None
             | Inr (Naive t) \<Rightarrow> Some t)))"

text \<open>
  A post that the publish loop has moved back to the drafts: no file in the scheduled
  directory, and in the drafts directory a record in DRAFT status without scheduled time
  and with the note about the missed publication.
\<close>

definition demoted :: "store \<Rightarrow> string \<Rightarrow> bool" where
  "demoted s pid =
     (map_of (s SCHEDULED_DIR) pid = None
      \<and> map_option (\<lambda>q. (status q, scheduled_time q, error q)) (map_of (s DRAFTS_DIR) pid)
          = Some (POST_STATUS_DRAFT, None, Some missed_note))"

text \<open>
  A post that a tick has published: its only file is in the published directory, with
  status PUBLISHED and the publication time of the tick, and its schedule entries are
  marked published.
\<close>

definition published_by_tick :: "string \<Rightarrow> post \<Rightarrow> store \<times> schedule \<Rightarrow> bool" where
  "published_by_tick now_iso p st =
     (map_of (fst st DRAFTS_DIR) (post_id p) = None
      \<and> map_of (fst st SCHEDULED_DIR) (post_id p) = None
      \<and> map_of (fst st PUBLISHED_DIR) (post_id p)
          = Some (p\<lparr>status := POST_STATUS_PUBLISHED, published_at := Some now_iso\<rparr>)
      \<and> (\<forall>account. list_all (\<lambda>item. entry_post_id item = post_id p \<longrightarrow> entry_status item = ''published'')
             (get_scheduled_posts_for_account (snd st) account)))"

section \<open>Sample data\<close>

text \<open>Sample data for the concrete runs below.\<close>

definition post1 :: post where
  "post1 = \<lparr>post_id = ''p1'', account_id = ''acc'', post_text = ''hello'',
            media = [''a.jpg''], format = ''photo'', status = POST_STATUS_SCHEDULED,
            scheduled_time = Some ''2025-10-25T18:00:00'',
            created_at = ''2025-10-25T10:00:00'', published_at = None, error = None\<rparr>"

definition draft1 :: post where
  "draft1 = post1\<lparr>status := POST_STATUS_DRAFT, scheduled_time := None\<rparr>"

definition empty_store :: store where
  "empty_store = (\<lambda>d. [])"

definition store1 :: store where
  "store1 = empty_store(SCHEDULED_DIR := [(''p1'', post1)])"

definition store_draft1 :: store where
  "store_draft1 = empty_store(DRAFTS_DIR := [(''p1'', draft1)])"

text \<open>Seven drafts of one account, and 09:00 on day 739000.\<close>

definition draft_post :: "string \<Rightarrow> post" where
  "draft_post i = \<lparr>post_id = i, account_id = ''acc'', post_text = ''hello'',
            media = [''a.jpg''], format = ''photo'', status = POST_STATUS_DRAFT,
            scheduled_time = None,
            created_at = ''2025-10-25T08:00:00'', published_at = None, error = None\<rparr>"

definition ids7 :: "string list" where
  "ids7 = [''p1'', ''p2'', ''p3'', ''p4'', ''p5'', ''p6'', ''p7'']"

definition drafts7 :: store where
  "drafts7 = empty_store(DRAFTS_DIR := map (\<lambda>i. (i, draft_post i)) ids7)"

definition nine_oclock :: datetime where
  "nine_oclock = mk_datetime 739000 9 0 0 0"

definition times7 :: "datetime list" where
  "times7 =
     [mk_datetime 739000 9 30 0 0, mk_datetime 739000 14 0 0 0, mk_datetime 739000 18 30 0 0,
      mk_datetime 739001 8 0 0 0, mk_datetime 739001 13 0 0 0, mk_datetime 739001 18 0 0 0,
      mk_datetime 739002 8 0 0 0]"

text \<open>
  Stand-ins for the library parsers on the strings of the sample posts: 2025-10-25 is day
  739549.
\<close>

definition sample_fromisoformat :: "string \<Rightarrow> pydatetime option" where
  "sample_fromisoformat x =
     (if x = ''2025-10-25T11:58:00'' then Some (Naive (mk_datetime 739549 11 58 0 0))
      else if x = ''2025-10-25T18:00:00'' then Some (Naive (mk_datetime 739549 18 0 0 0))
      else if x = ''2025-10-25T17:58:30'' then Some (Naive (mk_datetime 739549 17 58 30 0))
      else if x = ''2025-10-25T16:58:20'' then Some (Naive (mk_datetime 739549 16 58 20 0))
      else if x = ''2025-10-25T18:08:20'' then Some (Naive (mk_datetime 739549 18 8 20 0))
      else None)"

definition sample_strptime :: "string \<Rightarrow> string \<Rightarrow> datetime option" where
  "sample_strptime x fmt = None"

definition sample_re_sub_millis :: "string \<Rightarrow> string" where
  "sample_re_sub_millis x = x"

text \<open>
  Three scheduled posts around 18:00 of 2025-10-25 (90 seconds before, 3700 seconds
  before, 500 seconds after), a published post, and stand-ins for the collaborators and
  for \<open>isoformat\<close>.
\<close>

definition post_due :: post where
  "post_due = post1\<lparr>post_id := ''due'', scheduled_time := Some ''2025-10-25T17:58:30''\<rparr>"

definition post_stale :: post where
  "post_stale = post1\<lparr>post_id := ''stale'', scheduled_time := Some ''2025-10-25T16:58:20''\<rparr>"

definition post_pending :: post where
  "post_pending = post1\<lparr>post_id := ''pending'', scheduled_time := Some ''2025-10-25T18:08:20''\<rparr>"

definition store3 :: store where
  "store3 = empty_store(SCHEDULED_DIR :=
     [(''due'', post_due), (''stale'', post_stale), (''pending'', post_pending)])"

definition six_pm :: datetime where
  "six_pm = mk_datetime 739549 18 0 0 0"

definition always_uploaded :: "store \<Rightarrow> post \<Rightarrow> outcome" where
  "always_uploaded s p = Uploaded"

definition sample_lower :: "string \<Rightarrow> string" where
  "sample_lower m =
     map (\<lambda>c. if CHR ''A'' \<le> c \<and> c \<le> CHR ''Z'' then char_of (of_char c + (32::nat)) else c) m"

definition sample_isoformat :: "datetime \<Rightarrow> string" where
  "sample_isoformat t =
     (if t = mk_datetime 739000 9 30 0 0 then ''2024-04-24T09:30:00''
      else if t = mk_datetime 739000 16 15 0 0 then ''2024-04-24T16:15:00''
      else ''other'')"

definition published1 :: post where
  "published1 = post1\<lparr>status := POST_STATUS_PUBLISHED,
                       published_at := Some ''2025-10-25T18:00:05''\<rparr>"

definition store_published1 :: store where
  "store_published1 = empty_store(PUBLISHED_DIR := [(''p1'', published1)])"

section \<open>Properties of the post store\<close>

lemma get_status_dir_simps [simp]:
  "get_status_dir ''draft'' = DRAFTS_DIR"
  "get_status_dir ''scheduled'' = SCHEDULED_DIR"
  "get_status_dir ''published'' = PUBLISHED_DIR"
  "get_status_dir ''error'' = DRAFTS_DIR"
  by (simp_all add: get_status_dir_def)

text \<open>
  C1. A status-changing operation should leave the post's record in exactly one status
  partition. \<open>mark_post_error\<close> writes the record with status error into the drafts
  directory and never removes the file of the old status: run on a store whose only post
  is scheduled, it leaves the post in two partitions, the drafts copy with status error
  and the scheduled copy still with status scheduled.
\<close>

theorem mark_post_error_two_partitions:
  "partitions_of (snd (mark_post_error ''p1'' ''boom'' store1)) ''p1''
     = [DRAFTS_DIR, SCHEDULED_DIR]
   \<and> map_option status (map_of (snd (mark_post_error ''p1'' ''boom'' store1) DRAFTS_DIR) ''p1'')
       = Some POST_STATUS_ERROR
   \<and> map_option status (map_of (snd (mark_post_error ''p1'' ''boom'' store1) SCHEDULED_DIR) ''p1'')
       = Some POST_STATUS_SCHEDULED"
  by (simp add: mark_post_error_def get_post_def store1_def empty_store_def post1_def
      save_post_def partitions_of_def Let_def)

lemma map_of_save_post:
  "map_of (save_post p s d) k =
     (if d = get_status_dir (status p) \<and> k = post_id p then Some p else map_of (s d) k)"
  by (simp add: save_post_def Let_def update_conv')

lemma map_of_delete_post_file:
  "map_of (delete_post_file pid st s d) k =
     (if d = get_status_dir st \<and> k = pid then None else map_of (s d) k)"
  by (simp add: delete_post_file_def Let_def delete_conv')

text \<open>
  C9, as the claim states it, fails: \<open>create_post\<close> has no validation and no error
  result. Called with an empty media list it returns a draft whose media list is empty
  and stores it.
\<close>

theorem create_post_empty_media_counterexample:
  "fst (create_post ''id1'' ''2025-10-25T10:00:00'' ''acc'' ''hi'' [] ''photo''
          POST_STATUS_DRAFT empty_store)
     = \<lparr>post_id = ''id1'', account_id = ''acc'', post_text = ''hi'', media = [],
        format = ''photo'', status = POST_STATUS_DRAFT, scheduled_time = None,
        created_at = ''2025-10-25T10:00:00'', published_at = None, error = None\<rparr>
   \<and> map_option media
        (get_post (snd (create_post ''id1'' ''2025-10-25T10:00:00'' ''acc'' ''hi'' [] ''photo''
                          POST_STATUS_DRAFT empty_store)) ''id1'') = Some []"
  by (simp add: create_post_def save_post_def get_post_def empty_store_def Let_def)

text \<open>
  C9, amended: \<open>create_post\<close> never fails and does not look at the media list. For every
  media list, the empty one too, it returns a new post in DRAFT status (the default
  status) that carries the given media, with scheduled time, publication time and error
  unset, and \<open>get_post\<close> finds that post under its identifier afterwards.
\<close>

theorem create_post_any_media:
  "status (fst (create_post new_id now_iso acct txt med fmt POST_STATUS_DRAFT s)) = POST_STATUS_DRAFT
   \<and> media (fst (create_post new_id now_iso acct txt med fmt POST_STATUS_DRAFT s)) = med
   \<and> post_id (fst (create_post new_id now_iso acct txt med fmt POST_STATUS_DRAFT s)) = new_id
   \<and> scheduled_time (fst (create_post new_id now_iso acct txt med fmt POST_STATUS_DRAFT s)) = None
   \<and> published_at (fst (create_post new_id now_iso acct txt med fmt POST_STATUS_DRAFT s)) = None
   \<and> error (fst (create_post new_id now_iso acct txt med fmt POST_STATUS_DRAFT s)) = None
   \<and> get_post (snd (create_post new_id now_iso acct txt med fmt POST_STATUS_DRAFT s)) new_id
       = Some (fst (create_post new_id now_iso acct txt med fmt POST_STATUS_DRAFT s))"
  by (simp add: create_post_def save_post_def get_post_def Let_def update_conv')

text \<open>
  C7, as the claim states it, fails twice. \<open>publish_post\<close> on a post in DRAFT status does
  not fail with an invalid transition: it returns the post with status published and
  writes it into the published directory. And on a scheduled post it keeps the scheduled
  time.
\<close>

theorem publish_post_counterexample:
  "get_post store_draft1 ''p1'' = Some draft1 \<and> status draft1 = POST_STATUS_DRAFT
   \<and> map_option status (fst (publish_post ''2025-10-25T12:00:00'' ''p1'' store_draft1))
       = Some POST_STATUS_PUBLISHED
   \<and> map_of (snd (publish_post ''2025-10-25T12:00:00'' ''p1'' store_draft1) PUBLISHED_DIR) ''p1''
       = Some (draft1\<lparr>status := POST_STATUS_PUBLISHED,
                       published_at := Some ''2025-10-25T12:00:00''\<rparr>)
   \<and> map_option scheduled_time (fst (publish_post ''2025-10-25T12:00:00'' ''p1'' store1))
       = Some (Some ''2025-10-25T18:00:00'')"
  by (simp add: publish_post_def get_post_def store1_def store_draft1_def empty_store_def
      post1_def draft1_def save_post_def delete_post_file_def Let_def)

text \<open>
  C7, amended: \<open>publish_post\<close> returns \<open>None\<close> and leaves the store as it is when no
  post has the identifier. Otherwise, whatever the status of the post that \<open>get_post\<close>
  finds, it returns that post with status PUBLISHED and the publication time set to now,
  writes it into the published partition, keeps the scheduled time, and removes the
  scheduled file exactly when the post was SCHEDULED. There is no invalid-transition
  failure.
\<close>

theorem publish_post_any_status:
  "(get_post s pid = None \<longrightarrow> publish_post now_iso pid s = (None, s))
   \<and> (\<forall>p. get_post s pid = Some p \<longrightarrow>
         fst (publish_post now_iso pid s)
           = Some (p\<lparr>status := POST_STATUS_PUBLISHED, published_at := Some now_iso\<rparr>)
         \<and> map_of (snd (publish_post now_iso pid s) PUBLISHED_DIR) (post_id p)
           = Some (p\<lparr>status := POST_STATUS_PUBLISHED, published_at := Some now_iso\<rparr>)
         \<and> map_option scheduled_time (fst (publish_post now_iso pid s)) = Some (scheduled_time p)
         \<and> map_of (snd (publish_post now_iso pid s) SCHEDULED_DIR) pid
           = (if status p = POST_STATUS_SCHEDULED then None else map_of (s SCHEDULED_DIR) pid))"
  by (simp add: publish_post_def Let_def map_of_save_post map_of_delete_post_file)

theorem publish_post_any_status_witness:
  "get_post store_draft1 ''p1'' = Some draft1
   \<and> fst (publish_post ''2025-10-25T12:00:00'' ''p1'' store_draft1)
       = Some (draft1\<lparr>status := POST_STATUS_PUBLISHED,
                       published_at := Some ''2025-10-25T12:00:00''\<rparr>)
   \<and> get_post store_draft1 ''p2'' = None
   \<and> publish_post ''2025-10-25T12:00:00'' ''p2'' store_draft1 = (None, store_draft1)"
proof -
  have g: "get_post store_draft1 ''p1'' = Some draft1"
    by (simp add: get_post_def store_draft1_def empty_store_def)
  have n: "get_post store_draft1 ''p2'' = None"
    by (simp add: get_post_def store_draft1_def empty_store_def)
  from publish_post_any_status [of store_draft1 "''p1''" "''2025-10-25T12:00:00''"] g
    publish_post_any_status [of store_draft1 "''p2''" "''2025-10-25T12:00:00''"] n
  show ?thesis by simp
qed

section \<open>Properties of the scheduler\<close>

text \<open>
  C5. With three posts per day and seven drafts, the window 08:00 to 23:00, the minimum
  interval of 30 minutes and every clock reading at 09:00 of day 739000, enough fuel
  (three rounds of the loop) makes \<open>schedule_posts_for_account\<close> return: all seven posts
  are scheduled, in order, at 09:30, 14:00 and 18:30 of that day, at 08:00, 13:00 and
  18:00 of the next day and at 08:00 of the day after. The seven times are strictly
  increasing and all after 09:00 of the first day; the three of the first day lie in
  [09:00, 23:00), those of the later days in [08:00, 23:00), and the times of a day are
  at least 30 minutes apart.
\<close>

theorem schedule_seven_posts_three_per_day:
  "(case schedule_posts_for_account 3 isoformat nine_oclock nine_oclock (\<lambda>d. nine_oclock)
           ''acc'' ids7 3 None (drafts7, Map.empty) of
      Some (Inr (posts, s', sch')) \<Rightarrow>
        map post_id posts = ids7
        \<and> map status posts = replicate 7 POST_STATUS_SCHEDULED
        \<and> map scheduled_time posts = map (\<lambda>t. Some (isoformat t)) times7
        \<and> map_option (map entry_post_id) (sch' ''acc'') = Some ids7
        \<and> map_option (map entry_scheduled_time) (sch' ''acc'') = Some (map isoformat times7)
    | _ \<Rightarrow> False)
   \<and> length times7 = 7
   \<and> sorted_wrt (<) times7
   \<and> list_all (\<lambda>t. nine_oclock < t) times7
   \<and> map date_of times7 = [739000, 739000, 739000, 739001, 739001, 739001, 739002]
   \<and> list_all (\<lambda>t. 9 \<le> hour t \<and> hour t < 23) (take 3 times7)
   \<and> list_all (\<lambda>t. 8 \<le> hour t \<and> hour t < 23) (drop 3 times7)
   \<and> sorted_wrt (\<lambda>a b. a + timedelta_minutes 30 \<le> b) (take 3 times7)
   \<and> sorted_wrt (\<lambda>a b. a + timedelta_minutes 30 \<le> b) (take 3 (drop 3 times7))"
  by code_simp










text \<open>
  Two remarks on the loop of \<open>schedule_posts_for_account\<close>. With a negative
  \<open>posts_per_day\<close> every day gets no time, \<open>post_index\<close> never moves and the loop does
  not return, whatever the fuel. And the times of two different day buckets can
  coincide: at 22:50 the first bucket is deferred to 08:00 of the next day, which is
  also the time of the second bucket.
\<close>

lemma distribute_posts_in_day_negative:
  "posts_count < 0 \<Longrightarrow> distribute_posts_in_day now start_date posts_count = Inr []"
  by (simp add: distribute_posts_in_day_def Let_def)

lemma schedule_loop_negative_never_returns:
  assumes "posts_per_day < 0" "post_index < length post_ids"
  shows "schedule_loop fuel isoformat day_now account post_ids posts_per_day start_time
           current_day (s, sch, scheduled_posts, post_index) = None"
proof (induction fuel arbitrary: current_day)
  case 0
  with assms(2) show ?case by simp
next
  case (Suc fuel)
  have "min posts_per_day (int (length post_ids) - int post_index) < 0"
    using assms(1) by simp
  then have "distribute_posts_in_day (day_now current_day)
      (start_time + timedelta_days current_day)
      (min posts_per_day (int (length post_ids) - int post_index)) = Inr []"
    by (rule distribute_posts_in_day_negative)
  with assms(2) Suc.IH [of "current_day + 1"] show ?case
    by (simp add: Let_def)
qed

lemma deferred_bucket_collides:
  "distribute_posts_in_day (mk_datetime 739000 22 50 0 0) (mk_datetime 739000 23 20 0 0) 1
     = Inr [mk_datetime 739001 8 0 0 0]
   \<and> distribute_posts_in_day (mk_datetime 739000 22 50 0 0) (mk_datetime 739001 23 20 0 0) 1
     = Inr [mk_datetime 739001 8 0 0 0]"
  by code_simp

section \<open>Properties of the publisher\<close>

lemma get_post_mark_post_error:
  assumes "get_post s pid = Some q" "post_id q = pid"
  shows "get_post (snd (mark_post_error pid err s)) pid
           = Some (q\<lparr>status := POST_STATUS_ERROR, error := Some err\<rparr>)"
proof -
  have "snd (mark_post_error pid err s)
          = save_post (q\<lparr>status := POST_STATUS_ERROR, error := Some err\<rparr>) s"
    using assms(1) by (simp add: mark_post_error_def Let_def)
  then show ?thesis using assms(2)
    by (simp add: get_post_def map_of_save_post)
qed

text \<open>
  C4. A publish attempt whose \<open>try\<close> block raises an exception with message \<open>msg\<close>:
  if the message contains the marker for "too early", or its lower-case form contains
  \<open>wait\<close>, the attempt changes nothing, neither the store nor the schedule, so the post
  keeps its status and its error field. Otherwise the schedule is unchanged and the post
  that \<open>get_post\<close> found under the identifier is found afterwards with status ERROR and
  the error field set to the message, its other fields as before.
\<close>

theorem publish_failure_soft_or_hard:
  "(contains msg too_early_marker \<or> contains (lower msg) ''wait'' \<longrightarrow>
      publisher_publish_post lower now_iso (Raised msg) p st = st)
   \<and> (\<not> (contains msg too_early_marker \<or> contains (lower msg) ''wait'') \<longrightarrow>
        snd (publisher_publish_post lower now_iso (Raised msg) p st) = snd st
        \<and> (\<forall>q. get_post (fst st) (post_id p) = Some q \<and> post_id q = post_id p \<longrightarrow>
              get_post (fst (publisher_publish_post lower now_iso (Raised msg) p st)) (post_id p)
                = Some (q\<lparr>status := POST_STATUS_ERROR, error := Some msg\<rparr>)))"
  by (simp add: publisher_publish_post_def get_post_mark_post_error)

theorem publish_failure_soft_or_hard_witness:
  "contains (too_early_marker @ ''! 12'') too_early_marker
   \<and> publisher_publish_post sample_lower ''2025-10-25T18:00:05''
        (Raised (too_early_marker @ ''! 12'')) post1 (store1, Map.empty) = (store1, Map.empty)
   \<and> contains (sample_lower ''Please WAIT a few minutes'') ''wait''
   \<and> publisher_publish_post sample_lower ''2025-10-25T18:00:05''
        (Raised ''Please WAIT a few minutes'') post1 (store1, Map.empty) = (store1, Map.empty)
   \<and> \<not> (contains ''boom'' too_early_marker \<or> contains (sample_lower ''boom'') ''wait'')
   \<and> get_post store1 (post_id post1) = Some post1
   \<and> get_post (fst (publisher_publish_post sample_lower ''2025-10-25T18:00:05'' (Raised ''boom'')
                       post1 (store1, Map.empty))) (post_id post1)
        = Some (post1\<lparr>status := POST_STATUS_ERROR, error := Some ''boom''\<rparr>)"
proof -
  have soft: "contains (too_early_marker @ ''! 12'') too_early_marker"
    by code_simp
  have soft': "contains (sample_lower ''Please WAIT a few minutes'') ''wait''"
    by code_simp
  have hard: "\<not> (contains ''boom'' too_early_marker \<or> contains (sample_lower ''boom'') ''wait'')"
    by code_simp
  have g: "get_post store1 (post_id post1) = Some post1"
    by (simp add: get_post_def store1_def empty_store_def post1_def)
  note T1 = publish_failure_soft_or_hard
         [of "too_early_marker @ ''! 12''" sample_lower "''2025-10-25T18:00:05''" post1
             "(store1, Map.empty)"]
  note T2 = publish_failure_soft_or_hard
         [of "''Please WAIT a few minutes''" sample_lower "''2025-10-25T18:00:05''" post1
             "(store1, Map.empty)"]
  note T3 = publish_failure_soft_or_hard
         [of "''boom''" sample_lower "''2025-10-25T18:00:05''" post1 "(store1, Map.empty)"]
  from T1 soft have r1: "publisher_publish_post sample_lower ''2025-10-25T18:00:05''
        (Raised (too_early_marker @ ''! 12'')) post1 (store1, Map.empty) = (store1, Map.empty)"
    by blast
  from T2 soft' have r2: "publisher_publish_post sample_lower ''2025-10-25T18:00:05''
        (Raised ''Please WAIT a few minutes'') post1 (store1, Map.empty) = (store1, Map.empty)"
    by blast
  from T3 hard g have r3: "get_post (fst (publisher_publish_post sample_lower
        ''2025-10-25T18:00:05'' (Raised ''boom'') post1 (store1, Map.empty))) (post_id post1)
        = Some (post1\<lparr>status := POST_STATUS_ERROR, error := Some ''boom''\<rparr>)"
    by simp
  from soft soft' hard g r1 r2 r3 show ?thesis by blast
qed

section \<open>Properties of the parser\<close>

lemma parse_Z:
  assumes "s \<noteq> []" "\<not> endswith_Z s"
  shows "parse_iso_datetime fi sp rs (s @ ''Z'') = parse_iso_datetime fi sp rs s"
  using assms by (simp add: parse_iso_datetime_def endswith_Z_def Let_def)

text \<open>
  C10. For a string that ends in \<open>Z\<close> (after a non-empty timestamp that does not itself
  end in \<open>Z\<close>), \<open>parse_iso_datetime\<close> returns what it returns for the string without
  the \<open>Z\<close>: the marker is dropped and nothing is converted. The publish loop therefore
  treats a post whose scheduled time carries the \<open>Z\<close> like the post with the bare
  wall-clock string: the same list of posts to move to the drafts and the same parsed
  times to publish at, compared with the local \<open>now\<close>.
\<close>

theorem parse_iso_datetime_discards_Z:
  assumes "s \<noteq> []" "\<not> endswith_Z s"
  shows "parse_iso_datetime fromisoformat strptime re_sub_millis (s @ ''Z'')
           = parse_iso_datetime fromisoformat strptime re_sub_millis s
         \<and> snd (scan_post fromisoformat strptime re_sub_millis now acc
                  (p\<lparr>scheduled_time := Some (s @ ''Z'')\<rparr>))
           = snd (scan_post fromisoformat strptime re_sub_millis now acc
                  (p\<lparr>scheduled_time := Some s\<rparr>))
         \<and> map snd (fst (scan_post fromisoformat strptime re_sub_millis now acc
                  (p\<lparr>scheduled_time := Some (s @ ''Z'')\<rparr>)))
           = map snd (fst (scan_post fromisoformat strptime re_sub_millis now acc
                  (p\<lparr>scheduled_time := Some s\<rparr>)))"
  using assms parse_Z [OF assms, of fromisoformat strptime re_sub_millis]
  by (simp add: scan_post_def Let_def split: sum.splits pydatetime.splits)

theorem parse_iso_datetime_discards_Z_witness:
  "''2025-10-25T11:58:00'' \<noteq> [] \<and> \<not> endswith_Z ''2025-10-25T11:58:00''
   \<and> parse_iso_datetime sample_fromisoformat sample_strptime sample_re_sub_millis
         (''2025-10-25T11:58:00'' @ ''Z'')
       = parse_iso_datetime sample_fromisoformat sample_strptime sample_re_sub_millis
           ''2025-10-25T11:58:00''
   \<and> parse_iso_datetime sample_fromisoformat sample_strptime sample_re_sub_millis
         ''2025-10-25T11:58:00'' = Inr (Naive (mk_datetime 739549 11 58 0 0))"
proof -
  have a: "''2025-10-25T11:58:00'' \<noteq> []" by simp
  have b: "\<not> endswith_Z ''2025-10-25T11:58:00''" by (simp add: endswith_Z_def)
  have c: "parse_iso_datetime sample_fromisoformat sample_strptime sample_re_sub_millis
         ''2025-10-25T11:58:00'' = Inr (Naive (mk_datetime 739549 11 58 0 0))"
    by (simp add: parse_iso_datetime_def endswith_Z_def sample_fromisoformat_def
        sample_re_sub_millis_def formats_to_try_def)
  from a b c parse_iso_datetime_discards_Z [OF a b, of sample_fromisoformat sample_strptime
      sample_re_sub_millis]
  show ?thesis by blast
qed


section \<open>Well-formed stores\<close>

lemma all_paths: "(\<forall>d::path. P d) = (P DRAFTS_DIR \<and> P SCHEDULED_DIR \<and> P PUBLISHED_DIR)"
  by (metis path.exhaust)

lemma wf_store_all: "wf_store s = (\<forall>d. wf_directory (s d))"
  by (simp add: wf_store_def all_paths)

lemma wf_directory_map_of:
  "wf_directory dir \<Longrightarrow> map_of dir k = Some p \<Longrightarrow> post_id p = k"
  by (auto simp: wf_directory_def list_all_iff dest!: map_of_SomeD)

lemma list_all_update:
  "list_all P xs \<Longrightarrow> P (k, v) \<Longrightarrow> list_all P (AList.update k v xs)"
  by (induction xs) auto

lemma list_all_delete:
  "list_all P xs \<Longrightarrow> list_all P (AList.delete k xs)"
  by (induction xs) auto

lemma wf_directory_update:
  "wf_directory dir \<Longrightarrow> post_id p = k \<Longrightarrow> wf_directory (AList.update k p dir)"
  by (simp add: wf_directory_def distinct_update list_all_update)

lemma wf_directory_delete:
  "wf_directory dir \<Longrightarrow> wf_directory (AList.delete k dir)"
  by (simp add: wf_directory_def distinct_delete list_all_delete)

lemma wf_save_post: "wf_store s \<Longrightarrow> wf_store (save_post p s)"
  by (simp add: wf_store_all save_post_def Let_def wf_directory_update)

lemma wf_delete_post_file: "wf_store s \<Longrightarrow> wf_store (delete_post_file pid st s)"
  by (simp add: wf_store_all delete_post_file_def Let_def wf_directory_delete)

lemma wf_get_post: "wf_store s \<Longrightarrow> get_post s pid = Some p \<Longrightarrow> post_id p = pid"
  by (auto simp: wf_store_all get_post_def split: option.splits dest: wf_directory_map_of)

lemma get_post_None: "get_post s pid = None \<longleftrightarrow> (\<forall>d. map_of (s d) pid = None)"
  by (auto simp: get_post_def all_paths split: option.splits)

lemma wf_schedule_post: "wf_store s \<Longrightarrow> wf_store (snd (schedule_post pid stime s))"
  by (auto simp: schedule_post_def Let_def intro!: wf_save_post wf_delete_post_file
      split: option.splits)

lemma wf_publish_post: "wf_store s \<Longrightarrow> wf_store (snd (publish_post now_iso pid s))"
  by (auto simp: publish_post_def Let_def intro!: wf_save_post wf_delete_post_file
      split: option.splits)

lemma wf_mark_post_error: "wf_store s \<Longrightarrow> wf_store (snd (mark_post_error pid err s))"
  by (auto simp: mark_post_error_def Let_def intro!: wf_save_post split: option.splits)

lemma wf_move_to_drafts: "wf_store (fst st) \<Longrightarrow> wf_store (fst (move_to_drafts st pid))"
  by (auto simp: move_to_drafts_def Let_def intro!: wf_save_post wf_delete_post_file
      split: option.splits)

lemma wf_publisher_publish_post:
  "wf_store (fst st) \<Longrightarrow> wf_store (fst (publisher_publish_post lower now_iso res p st))"
  by (auto simp: publisher_publish_post_def wf_publish_post wf_mark_post_error
      split: outcome.splits)

text \<open>An operation on one identifier leaves the files of the other identifiers.\<close>

lemma schedule_post_other:
  "wf_store s \<Longrightarrow> k \<noteq> pid \<Longrightarrow> map_of (snd (schedule_post pid stime s) d) k = map_of (s d) k"
  by (auto simp: schedule_post_def Let_def map_of_save_post map_of_delete_post_file
      split: option.splits dest: wf_get_post)

lemma publish_post_other:
  "wf_store s \<Longrightarrow> k \<noteq> pid \<Longrightarrow> map_of (snd (publish_post now_iso pid s) d) k = map_of (s d) k"
  by (auto simp: publish_post_def Let_def map_of_save_post map_of_delete_post_file
      split: option.splits dest: wf_get_post)

lemma mark_post_error_other:
  "wf_store s \<Longrightarrow> k \<noteq> pid \<Longrightarrow> map_of (snd (mark_post_error pid err s) d) k = map_of (s d) k"
  by (auto simp: mark_post_error_def Let_def map_of_save_post map_of_delete_post_file
      split: option.splits dest: wf_get_post)

lemma move_to_drafts_other:
  "wf_store (fst st) \<Longrightarrow> k \<noteq> pid \<Longrightarrow>
   map_of (fst (move_to_drafts st pid) d) k = map_of (fst st d) k"
  by (auto simp: move_to_drafts_def Let_def map_of_save_post map_of_delete_post_file
      split: option.splits dest: wf_get_post)

lemma publisher_publish_post_other:
  "wf_store (fst st) \<Longrightarrow> k \<noteq> post_id p \<Longrightarrow>
   map_of (fst (publisher_publish_post lower now_iso res p st) d) k = map_of (fst st d) k"
  by (auto simp: publisher_publish_post_def publish_post_other mark_post_error_other
      split: outcome.splits)

section \<open>The time fields and the status\<close>

lemma store_times_all:
  "store_times_follow_status s = (\<forall>d. list_all (\<lambda>kp. times_follow_status (snd kp)) (s d))"
proof -
  have "\<And>P. (\<forall>d::path. P d) = (P DRAFTS_DIR \<and> P SCHEDULED_DIR \<and> P PUBLISHED_DIR)"
    by (metis path.exhaust)
  then show ?thesis by (simp add: store_times_follow_status_def)
qed

lemma times_save_post:
  "store_times_follow_status s \<Longrightarrow> times_follow_status p \<Longrightarrow> store_times_follow_status (save_post p s)"
  by (simp add: store_times_all save_post_def Let_def list_all_update)

lemma times_delete_post_file:
  "store_times_follow_status s \<Longrightarrow> store_times_follow_status (delete_post_file pid st s)"
  by (simp add: store_times_all delete_post_file_def Let_def list_all_delete)

lemma times_get_post:
  assumes "store_times_follow_status s" "get_post s pid = Some p"
  shows "times_follow_status p"
proof -
  from assms(2) obtain d where "map_of (s d) pid = Some p"
    by (auto simp: get_post_def split: option.splits)
  then have "(pid, p) \<in> set (s d)" by (rule map_of_SomeD)
  with assms(1) show ?thesis by (fastforce simp: store_times_all list_all_iff)
qed

lemma times_create_post:
  "store_times_follow_status s \<Longrightarrow>
   store_times_follow_status (snd (create_post new_id now_iso acct txt med fmt POST_STATUS_DRAFT s))"
  by (simp add: create_post_def Let_def times_save_post times_follow_status_def)

lemma times_schedule_post:
  "store_times_follow_status s \<Longrightarrow> store_times_follow_status (snd (schedule_post pid stime s))"
  by (auto simp: schedule_post_def Let_def times_follow_status_def
      intro!: times_save_post times_delete_post_file dest: times_get_post split: option.splits)

lemma times_publish_post:
  "store_times_follow_status s \<Longrightarrow> store_times_follow_status (snd (publish_post now_iso pid s))"
  by (auto simp: publish_post_def Let_def times_follow_status_def
      intro!: times_save_post times_delete_post_file dest: times_get_post split: option.splits)

lemma times_mark_post_error:
  "store_times_follow_status s \<Longrightarrow> store_times_follow_status (snd (mark_post_error pid err s))"
  by (auto simp: mark_post_error_def Let_def times_follow_status_def
      intro!: times_save_post times_delete_post_file dest: times_get_post split: option.splits)

lemma times_move_to_drafts:
  "store_times_follow_status (fst st) \<Longrightarrow> store_times_follow_status (fst (move_to_drafts st pid))"
  by (auto simp: move_to_drafts_def Let_def times_follow_status_def
      intro!: times_save_post times_delete_post_file dest: times_get_post split: option.splits)

lemma times_publisher_publish_post:
  "store_times_follow_status (fst st) \<Longrightarrow>
   store_times_follow_status (fst (publisher_publish_post lower now_iso res p st))"
  by (auto simp: publisher_publish_post_def times_publish_post times_mark_post_error
      split: outcome.splits)

lemma times_foldl_move:
  "store_times_follow_status (fst st) \<Longrightarrow> store_times_follow_status (fst (foldl move_to_drafts st pids))"
  by (induction pids arbitrary: st) (auto simp: times_move_to_drafts)

lemma times_foldl_publish:
  "store_times_follow_status (fst st) \<Longrightarrow>
   store_times_follow_status
     (fst (foldl (\<lambda>st' (p, t). publisher_publish_post lower now_iso (attempt (fst st') p) p st') st xs))"
proof (induction xs arbitrary: st)
  case Nil
  then show ?case by simp
next
  case (Cons x xs)
  obtain p t where x: "x = (p, t)" by (cases x)
  from Cons.prems have "store_times_follow_status
      (fst (publisher_publish_post lower now_iso (attempt (fst st) p) p st))"
    by (rule times_publisher_publish_post)
  from Cons.IH [OF this] x show ?case by simp
qed

lemma times_check_and_publish:
  "store_times_follow_status (fst st) \<Longrightarrow>
   store_times_follow_status
     (fst (check_and_publish lower fromisoformat strptime re_sub_millis attempt now now_iso st))"
  by (simp add: check_and_publish_def Let_def times_foldl_move times_foldl_publish)

lemma times_schedule_times:
  "store_times_follow_status (fst st) \<Longrightarrow>
   store_times_follow_status (fst (schedule_times isoformat account post_ids ts st))"
proof (induction ts arbitrary: st)
  case Nil
  then show ?case by simp
next
  case (Cons stime rest)
  obtain s sch posts idx where st: "st = (s, sch, posts, idx)" by (cases st) auto
  show ?case
  proof (cases "length post_ids \<le> idx")
    case True
    with Cons.prems st show ?thesis by simp
  next
    case False
    obtain r s' where sp: "schedule_post (post_ids ! idx) (isoformat stime) s = (r, s')"
      by (cases "schedule_post (post_ids ! idx) (isoformat stime) s")
    from times_schedule_post [of s "post_ids ! idx" "isoformat stime"] Cons.prems st sp
    have ok: "store_times_follow_status s'" by simp
    show ?thesis
    proof (cases r)
      case None
      from Cons.IH [of "(s', sch, posts, idx + 1)"] ok
      show ?thesis using False sp st None by simp
    next
      case (Some p)
      from Cons.IH [of "(s', sch(account \<mapsto> (case sch account of None \<Rightarrow> [] | Some es \<Rightarrow> es)
                       @ [\<lparr>entry_post_id = post_ids ! idx,
                           entry_scheduled_time = isoformat stime,
                           entry_status = ''scheduled''\<rparr>]), posts @ [p], idx + 1)"] ok
      show ?thesis using False sp st Some by (simp add: Let_def)
    qed
  qed
qed

lemma times_schedule_loop:
  "store_times_follow_status (fst st) \<Longrightarrow>
   schedule_loop fuel isoformat day_now account post_ids ppd start_time current_day st = Some (Inr st') \<Longrightarrow>
   store_times_follow_status (fst st')"
proof (induction fuel arbitrary: st current_day)
  case 0
  obtain s sch posts idx where st: "st = (s, sch, posts, idx)" by (cases st) auto
  with 0 show ?case by (auto split: if_splits)
next
  case (Suc fuel)
  obtain s sch posts idx where st: "st = (s, sch, posts, idx)" by (cases st) auto
  show ?case
  proof (cases "idx < length post_ids")
    case False
    with Suc.prems st show ?thesis by auto
  next
    case True
    with Suc.prems(2) st obtain ts where
      d: "distribute_posts_in_day (day_now current_day) (start_time + timedelta_days current_day)
            (min ppd (int (length post_ids) - int idx)) = Inr ts"
      and l: "schedule_loop fuel isoformat day_now account post_ids ppd start_time (current_day + 1)
               (schedule_times isoformat account post_ids ts (s, sch, posts, idx)) = Some (Inr st')"
      by (auto simp: Let_def split: sum.splits)
    from Suc.prems(1) st have "store_times_follow_status
        (fst (schedule_times isoformat account post_ids ts (s, sch, posts, idx)))"
      by (intro times_schedule_times) simp
    from Suc.IH [OF this l] show ?thesis .
  qed
qed

text \<open>
  C2, as the claim states it, fails in both converse directions. \<open>publish_post\<close> on a
  scheduled post leaves a published post whose scheduled time is still set; and
  \<open>mark_post_error\<close> on that post leaves a post in ERROR status whose publication time
  is still set.
\<close>

theorem times_iff_status_counterexample:
  "map_option (\<lambda>q. (status q, scheduled_time q))
      (get_post (snd (publish_post ''2025-10-25T18:00:05'' ''p1'' store1)) ''p1'')
     = Some (POST_STATUS_PUBLISHED, Some ''2025-10-25T18:00:00'')
   \<and> map_option (\<lambda>q. (status q, published_at q))
      (get_post (snd (mark_post_error ''p1'' ''boom''
                        (snd (publish_post ''2025-10-25T18:00:05'' ''p1'' store1)))) ''p1'')
     = Some (POST_STATUS_ERROR, Some ''2025-10-25T18:00:05'')"
  by code_simp

text \<open>
  C2, amended: if in every stored record a SCHEDULED status comes with a scheduled time
  and a PUBLISHED status with a publication time, then the same holds after
  \<open>create_post\<close> (default status), \<open>schedule_post\<close>, \<open>publish_post\<close>,
  \<open>mark_post_error\<close>, the demotion of a stale post, a whole tick of the publish loop,
  and a whole batch of the scheduler that returns. Only these two implications hold;
  their converses do not, and \<open>update_post\<close> is not covered.
\<close>

theorem times_follow_status_preserved:
  assumes "store_times_follow_status s"
  shows "store_times_follow_status
           (snd (create_post new_id created acct txt med fmt POST_STATUS_DRAFT s))
         \<and> store_times_follow_status (snd (schedule_post pid stime s))
         \<and> store_times_follow_status (snd (publish_post now_iso pid s))
         \<and> store_times_follow_status (snd (mark_post_error pid err s))
         \<and> store_times_follow_status (fst (move_to_drafts (s, sch) pid))
         \<and> store_times_follow_status
             (fst (check_and_publish lower fromisoformat strptime re_sub_millis attempt now
                     now_iso (s, sch)))
         \<and> (\<forall>posts s' sch'.
               schedule_posts_for_account fuel isoformat now_default now' day_now account post_ids
                 posts_per_day start_date (s, sch) = Some (Inr (posts, s', sch'))
               \<longrightarrow> store_times_follow_status s')"
proof -
  have "store_times_follow_status s'"
    if "schedule_posts_for_account fuel isoformat now_default now' day_now account post_ids
          posts_per_day start_date (s, sch) = Some (Inr (posts, s', sch'))" for posts s' sch'
  proof -
    from that obtain start_time idx' where
      "schedule_loop fuel isoformat day_now account post_ids posts_per_day start_time 0
         (s, sch, [], 0) = Some (Inr (s', sch', posts, idx'))"
      by (auto simp: schedule_posts_for_account_def Let_def
          split: if_splits option.splits sum.splits)
    from times_schedule_loop [OF _ this] assms show ?thesis by simp
  qed
  then show ?thesis
    using assms
    by (simp add: times_create_post times_schedule_post times_publish_post times_mark_post_error
        times_move_to_drafts times_check_and_publish)
qed

theorem times_follow_status_preserved_witness:
  "store_times_follow_status store1
   \<and> store_times_follow_status (snd (publish_post ''2025-10-25T18:00:05'' ''p1'' store1))
   \<and> store_times_follow_status (snd (mark_post_error ''p1'' ''boom'' store1))
   \<and> store_times_follow_status
       (fst (check_and_publish sample_lower sample_fromisoformat sample_strptime
               sample_re_sub_millis always_uploaded six_pm ''2025-10-25T18:00:05''
               (store1, Map.empty)))
   \<and> (case schedule_posts_for_account 1 sample_isoformat nine_oclock nine_oclock
              (\<lambda>d. nine_oclock) ''acc'' [''p1''] 3 None (store1, Map.empty) of
         Some (Inr (posts, s', sch')) \<Rightarrow> store_times_follow_status s'
       | _ \<Rightarrow> False)"
proof -
  have h: "store_times_follow_status store1" by code_simp
  have "case schedule_posts_for_account 1 sample_isoformat nine_oclock nine_oclock
              (\<lambda>d. nine_oclock) ''acc'' [''p1''] 3 None (store1, Map.empty) of
         Some (Inr (posts, s', sch')) \<Rightarrow> True | _ \<Rightarrow> False"
    by code_simp
  then obtain posts s' sch' where
    e: "schedule_posts_for_account 1 sample_isoformat nine_oclock nine_oclock
              (\<lambda>d. nine_oclock) ''acc'' [''p1''] 3 None (store1, Map.empty)
          = Some (Inr (posts, s', sch'))"
    by (auto split: option.splits sum.splits)
  from times_follow_status_preserved [OF h, where pid = "''p1''"
      and now_iso = "''2025-10-25T18:00:05''" and err = "''boom''" and sch = Map.empty
      and lower = sample_lower and fromisoformat = sample_fromisoformat
      and strptime = sample_strptime and re_sub_millis = sample_re_sub_millis
      and attempt = always_uploaded and now = six_pm and fuel = 1
      and isoformat = sample_isoformat and now_default = nine_oclock and now' = nine_oclock
      and day_now = "\<lambda>d. nine_oclock" and account = "''acc''" and post_ids = "[''p1'']"
      and posts_per_day = 3 and start_date = None] h e
  show ?thesis by simp
qed

section \<open>Batches with missing identifiers\<close>

lemma schedule_times_not_found:
  "post_index < length post_ids \<Longrightarrow> get_post s (post_ids ! post_index) = None \<Longrightarrow>
   schedule_times isoformat account post_ids (stime # rest) (s, sch, posts, post_index)
     = schedule_times isoformat account post_ids rest (s, sch, posts, Suc post_index)"
  by (simp add: schedule_post_def)

lemma schedule_times_found:
  "post_index < length post_ids \<Longrightarrow> get_post s (post_ids ! post_index) = Some p \<Longrightarrow>
   schedule_times isoformat account post_ids (stime # rest) (s, sch, posts, post_index)
     = schedule_times isoformat account post_ids rest
         (snd (schedule_post (post_ids ! post_index) (isoformat stime) s),
          sch(account \<mapsto> get_scheduled_posts_for_account sch account
                @ [\<lparr>entry_post_id = post_ids ! post_index,
                    entry_scheduled_time = isoformat stime,
                    entry_status = ''scheduled''\<rparr>]),
          posts @ [p\<lparr>status := POST_STATUS_SCHEDULED, scheduled_time := Some (isoformat stime)\<rparr>],
          Suc post_index)"
  by (simp add: schedule_post_def Let_def get_scheduled_posts_for_account_def)

lemma schedule_times_skips:
  assumes "wf_store s" "get_post s pid = None" "pid \<notin> set (map post_id posts)"
    and "schedule_times isoformat account post_ids ts (s, sch, posts, idx) = (s', sch', posts', idx')"
  shows "wf_store s' \<and> get_post s' pid = None \<and> pid \<notin> set (map post_id posts')
         \<and> (\<forall>a. filter (\<lambda>e. entry_post_id e = pid) (get_scheduled_posts_for_account sch' a)
                = filter (\<lambda>e. entry_post_id e = pid) (get_scheduled_posts_for_account sch a))"
  using assms
proof (induction ts arbitrary: s sch posts idx)
  case Nil
  then show ?case by simp
next
  case (Cons stime rest)
  show ?case
  proof (cases "idx < length post_ids")
    case False
    with Cons.prems show ?thesis by simp
  next
    case True
    let ?q = "post_ids ! idx"
    show ?thesis
    proof (cases "get_post s ?q")
      case None
      with Cons.prems(4) True
      have "schedule_times isoformat account post_ids rest (s, sch, posts, Suc idx)
              = (s', sch', posts', idx')"
        by (simp add: schedule_times_not_found del: schedule_times.simps)
      from Cons.IH [OF Cons.prems(1-3) this] show ?thesis .
    next
      case (Some p)
      let ?s1 = "snd (schedule_post ?q (isoformat stime) s)"
      let ?sch1 = "sch(account \<mapsto> get_scheduled_posts_for_account sch account
                @ [\<lparr>entry_post_id = ?q, entry_scheduled_time = isoformat stime,
                    entry_status = ''scheduled''\<rparr>])"
      let ?posts1 = "posts @ [p\<lparr>status := POST_STATUS_SCHEDULED,
                                scheduled_time := Some (isoformat stime)\<rparr>]"
      from Some Cons.prems(2) have ne: "pid \<noteq> ?q" by auto
      from wf_get_post [OF Cons.prems(1) Some] have pq: "post_id p = ?q" .
      have w1: "wf_store ?s1" using Cons.prems(1) by (rule wf_schedule_post)
      have g1: "get_post ?s1 pid = None"
        using Cons.prems(1,2) ne by (simp add: get_post_None schedule_post_other)
      have p1: "pid \<notin> set (map post_id ?posts1)"
        using Cons.prems(3) ne pq by simp
      from Cons.prems(4) True Some
      have "schedule_times isoformat account post_ids rest (?s1, ?sch1, ?posts1, Suc idx)
              = (s', sch', posts', idx')"
        by (simp add: schedule_times_found del: schedule_times.simps)
      from Cons.IH [OF w1 g1 p1 this]
      have *: "wf_store s' \<and> get_post s' pid = None \<and> pid \<notin> set (map post_id posts')
         \<and> (\<forall>a. filter (\<lambda>e. entry_post_id e = pid) (get_scheduled_posts_for_account sch' a)
                = filter (\<lambda>e. entry_post_id e = pid) (get_scheduled_posts_for_account ?sch1 a))" .
      have "filter (\<lambda>e. entry_post_id e = pid) (get_scheduled_posts_for_account ?sch1 a)
              = filter (\<lambda>e. entry_post_id e = pid) (get_scheduled_posts_for_account sch a)" for a
        using ne by (simp add: get_scheduled_posts_for_account_def)
      with * show ?thesis by simp
    qed
  qed
qed

lemma schedule_loop_skips:
  assumes "wf_store s" "get_post s pid = None" "pid \<notin> set (map post_id posts)"
    and "schedule_loop fuel isoformat day_now account post_ids ppd start_time current_day
           (s, sch, posts, idx) = Some (Inr (s', sch', posts', idx'))"
  shows "get_post s' pid = None \<and> pid \<notin> set (map post_id posts')
         \<and> (\<forall>a. filter (\<lambda>e. entry_post_id e = pid) (get_scheduled_posts_for_account sch' a)
                = filter (\<lambda>e. entry_post_id e = pid) (get_scheduled_posts_for_account sch a))"
  using assms
proof (induction fuel arbitrary: s sch posts idx current_day)
  case 0
  then show ?case by (auto split: if_splits)
next
  case (Suc fuel)
  show ?case
  proof (cases "idx < length post_ids")
    case False
    with Suc.prems show ?thesis by auto
  next
    case True
    with Suc.prems(4) obtain ts where
      l: "schedule_loop fuel isoformat day_now account post_ids ppd start_time (current_day + 1)
               (schedule_times isoformat account post_ids ts (s, sch, posts, idx))
            = Some (Inr (s', sch', posts', idx'))"
      by (auto simp: Let_def split: sum.splits)
    obtain s1 sch1 posts1 idx1 where
      t: "schedule_times isoformat account post_ids ts (s, sch, posts, idx) = (s1, sch1, posts1, idx1)"
      by (metis prod_cases4)
    from schedule_times_skips [OF Suc.prems(1-3) t]
    have a: "wf_store s1" "get_post s1 pid = None" "pid \<notin> set (map post_id posts1)"
      and b: "\<forall>a. filter (\<lambda>e. entry_post_id e = pid) (get_scheduled_posts_for_account sch1 a)
                = filter (\<lambda>e. entry_post_id e = pid) (get_scheduled_posts_for_account sch a)"
      by auto
    from Suc.IH [OF a l [unfolded t]] b show ?thesis by simp
  qed
qed

text \<open>
  C8, as the claim states it, fails for posts that are not drafts: \<open>schedule_post\<close>
  does not look at the status before it schedules. A batch with the identifier of a
  published post schedules that post: it comes back with status scheduled and the first
  time of the day, a file appears in the scheduled directory and an entry is appended to
  the schedule.
\<close>

theorem schedule_batch_not_draft_counterexample:
  "get_post store_published1 ''p1'' = Some published1
   \<and> status published1 = POST_STATUS_PUBLISHED
   \<and> (case schedule_posts_for_account 1 sample_isoformat nine_oclock nine_oclock
              (\<lambda>d. nine_oclock) ''acc'' [''p1''] 3 None (store_published1, Map.empty) of
         Some (Inr (posts, s', sch')) \<Rightarrow>
           map post_id posts = [''p1'']
           \<and> map status posts = [POST_STATUS_SCHEDULED]
           \<and> map scheduled_time posts = [Some ''2024-04-24T09:30:00'']
           \<and> map_option status (map_of (s' SCHEDULED_DIR) ''p1'') = Some POST_STATUS_SCHEDULED
           \<and> map_option (map entry_post_id) (sch' ''acc'') = Some [''p1'']
       | _ \<Rightarrow> False)"
  by code_simp

text \<open>
  C8, amended: in a batch on a well-formed store, an identifier that no post has is
  skipped: after the batch there is still no post under it, no returned post carries
  it, and no schedule entry for it has been added for any account. The batch goes on:
  a missing identifier only uses up its time slot and the loop continues with the next
  identifier; an identifier that is found is scheduled at its slot whatever the status
  of its post.
\<close>

theorem schedule_batch_skips_missing_ids:
  assumes "wf_store s" "get_post s pid = None"
    and "schedule_posts_for_account fuel isoformat now_default now day_now account post_ids
           posts_per_day start_date (s, sch) = Some (Inr (posts, s', sch'))"
  shows "get_post s' pid = None
         \<and> pid \<notin> set (map post_id posts)
         \<and> (\<forall>a. filter (\<lambda>e. entry_post_id e = pid) (get_scheduled_posts_for_account sch' a)
                = filter (\<lambda>e. entry_post_id e = pid) (get_scheduled_posts_for_account sch a))
         \<and> (\<forall>stime rest s0 sch0 posts0 i p.
               i < length post_ids \<longrightarrow>
                 (get_post s0 (post_ids ! i) = None \<longrightarrow>
                    schedule_times isoformat account post_ids (stime # rest) (s0, sch0, posts0, i)
                      = schedule_times isoformat account post_ids rest (s0, sch0, posts0, Suc i))
                 \<and> (get_post s0 (post_ids ! i) = Some p \<longrightarrow>
                    schedule_times isoformat account post_ids (stime # rest) (s0, sch0, posts0, i)
                      = schedule_times isoformat account post_ids rest
                          (snd (schedule_post (post_ids ! i) (isoformat stime) s0),
                           sch0(account \<mapsto> get_scheduled_posts_for_account sch0 account
                                 @ [\<lparr>entry_post_id = post_ids ! i,
                                     entry_scheduled_time = isoformat stime,
                                     entry_status = ''scheduled''\<rparr>]),
                           posts0 @ [p\<lparr>status := POST_STATUS_SCHEDULED,
                                       scheduled_time := Some (isoformat stime)\<rparr>],
                           Suc i)))"
proof -
  from assms(3) obtain start_time idx' where
    "schedule_loop fuel isoformat day_now account post_ids posts_per_day start_time 0
       (s, sch, [], 0) = Some (Inr (s', sch', posts, idx'))"
    by (auto simp: schedule_posts_for_account_def Let_def
        split: if_splits option.splits sum.splits)
  from schedule_loop_skips [OF assms(1,2) _ this]
  have "get_post s' pid = None \<and> pid \<notin> set (map post_id posts)
         \<and> (\<forall>a. filter (\<lambda>e. entry_post_id e = pid) (get_scheduled_posts_for_account sch' a)
                = filter (\<lambda>e. entry_post_id e = pid) (get_scheduled_posts_for_account sch a))"
    by simp
  then show ?thesis
    by (simp add: schedule_times_not_found schedule_times_found del: schedule_times.simps)
qed

theorem schedule_batch_skips_missing_ids_witness:
  "wf_store store_published1
   \<and> get_post store_published1 ''ghost'' = None
   \<and> (case schedule_posts_for_account 1 sample_isoformat nine_oclock nine_oclock
              (\<lambda>d. nine_oclock) ''acc'' [''ghost'', ''p1''] 3 None (store_published1, Map.empty) of
         Some (Inr (posts, s', sch')) \<Rightarrow>
           map post_id posts = [''p1'']
           \<and> map scheduled_time posts = [Some ''2024-04-24T16:15:00'']
           \<and> get_post s' ''ghost'' = None
           \<and> filter (\<lambda>e. entry_post_id e = ''ghost'') (get_scheduled_posts_for_account sch' ''acc'')
               = filter (\<lambda>e. entry_post_id e = ''ghost'')
                   (get_scheduled_posts_for_account Map.empty ''acc'')
       | _ \<Rightarrow> False)"
proof -
  have w: "wf_store store_published1" by code_simp
  have g: "get_post store_published1 ''ghost'' = None" by code_simp
  have "case schedule_posts_for_account 1 sample_isoformat nine_oclock nine_oclock
              (\<lambda>d. nine_oclock) ''acc'' [''ghost'', ''p1''] 3 None (store_published1, Map.empty) of
         Some (Inr (posts, s', sch')) \<Rightarrow>
           map post_id posts = [''p1'']
           \<and> map scheduled_time posts = [Some ''2024-04-24T16:15:00'']
       | _ \<Rightarrow> False"
    by code_simp
  then obtain posts s' sch' where
    e: "schedule_posts_for_account 1 sample_isoformat nine_oclock nine_oclock
              (\<lambda>d. nine_oclock) ''acc'' [''ghost'', ''p1''] 3 None (store_published1, Map.empty)
          = Some (Inr (posts, s', sch'))"
    and r: "map post_id posts = [''p1'']" "map scheduled_time posts = [Some ''2024-04-24T16:15:00'']"
    by (auto split: option.splits sum.splits)
  from schedule_batch_skips_missing_ids [OF w g e]
  have c1: "get_post s' ''ghost'' = None"
    and c3: "filter (\<lambda>e. entry_post_id e = ''ghost'') (get_scheduled_posts_for_account sch' ''acc'')
               = filter (\<lambda>e. entry_post_id e = ''ghost'')
                   (get_scheduled_posts_for_account Map.empty ''acc'')"
    by blast+
  from w g e r c1 c3 show ?thesis by simp
qed

section \<open>One tick of the publisher\<close>

lemma scan_post_parsed:
  "scan_post fi sp rs now acc p =
     (case parsed_time fi sp rs p of
        None \<Rightarrow> acc
      | Some t \<Rightarrow>
         (case spec_classification (total_seconds (now - t)) of
            STALE \<Rightarrow> (fst acc, if post_id p \<in> set (snd acc) then snd acc else snd acc @ [post_id p])
          | DUE \<Rightarrow> (fst acc @ [(p, t)], snd acc)
          | PENDING \<Rightarrow> acc))"
  by (auto simp: scan_post_def parsed_time_def spec_classification_def Let_def
      split: option.splits sum.splits pydatetime.splits)

lemma scan_fold_publish:
  "set (fst (foldl (scan_post fi sp rs now) acc posts))
     = set (fst acc) \<union>
       {(q, t). q \<in> set posts \<and> parsed_time fi sp rs q = Some t
                \<and> spec_classification (total_seconds (now - t)) = DUE}"
proof (induction posts arbitrary: acc)
  case Nil
  then show ?case by simp
next
  case (Cons p posts)
  show ?case
    unfolding foldl_Cons Cons.IH
    by (auto simp: scan_post_parsed split: option.splits classification.splits)
qed

lemma scan_fold_drafts:
  "set (snd (foldl (scan_post fi sp rs now) acc posts))
     = set (snd acc) \<union>
       {post_id q |q t. q \<in> set posts \<and> parsed_time fi sp rs q = Some t
                  \<and> spec_classification (total_seconds (now - t)) = STALE}"
proof (induction posts arbitrary: acc)
  case Nil
  then show ?case by simp
next
  case (Cons p posts)
  show ?case
    unfolding foldl_Cons Cons.IH
    by (auto simp: scan_post_parsed split: option.splits classification.splits)
qed

text \<open>The scheduled listing of a well-formed store.\<close>

lemma set_get_scheduled_posts: "set (get_scheduled_posts s) = snd ` set (s SCHEDULED_DIR)"
  by (simp add: get_scheduled_posts_def get_all_posts_def)

lemma scheduled_listing_map_of:
  assumes "wf_store s" "p \<in> set (get_scheduled_posts s)"
  shows "map_of (s SCHEDULED_DIR) (post_id p) = Some p"
proof -
  from assms(2) obtain k where k: "(k, p) \<in> set (s SCHEDULED_DIR)"
    by (auto simp: set_get_scheduled_posts)
  from assms(1) have wf: "wf_directory (s SCHEDULED_DIR)" by (simp add: wf_store_all)
  then have "distinct (map fst (s SCHEDULED_DIR))" by (simp add: wf_directory_def)
  with k have m: "map_of (s SCHEDULED_DIR) k = Some p" by simp
  from wf_directory_map_of [OF wf m] m show ?thesis by simp
qed

lemma scheduled_listing_inj:
  assumes "wf_store s" "p \<in> set (get_scheduled_posts s)" "q \<in> set (get_scheduled_posts s)"
    "post_id q = post_id p"
  shows "q = p"
  using scheduled_listing_map_of [OF assms(1,2)] scheduled_listing_map_of [OF assms(1,3)] assms(4)
  by simp

text \<open>The demotion loop.\<close>

lemma move_to_drafts_demotes:
  assumes "wf_store (fst st)" "get_post (fst st) pid \<noteq> None"
  shows "demoted (fst (move_to_drafts st pid)) pid"
proof -
  from assms(2) obtain q where q: "get_post (fst st) pid = Some q" by auto
  from wf_get_post [OF assms(1) q] have "post_id q = pid" .
  with q show ?thesis
    by (simp add: demoted_def move_to_drafts_def Let_def map_of_save_post map_of_delete_post_file)
qed

lemma move_to_drafts_keeps_demoted:
  assumes "wf_store (fst st)" "demoted (fst st) pid"
  shows "demoted (fst (move_to_drafts st pid')) pid"
proof (cases "pid' = pid")
  case True
  from assms(2) have "get_post (fst st) pid \<noteq> None"
    by (auto simp: demoted_def get_post_def)
  from move_to_drafts_demotes [OF assms(1) this] True show ?thesis by simp
next
  case False
  then have "map_of (fst (move_to_drafts st pid') d) pid = map_of (fst st d) pid" for d
    using move_to_drafts_other [OF assms(1), of pid pid' d] by simp
  with assms(2) show ?thesis by (simp add: demoted_def)
qed

lemma move_to_drafts_keeps_existing:
  assumes "wf_store (fst st)" "get_post (fst st) pid \<noteq> None"
  shows "get_post (fst (move_to_drafts st pid')) pid \<noteq> None"
proof (cases "pid' = pid")
  case True
  from move_to_drafts_demotes [OF assms] True show ?thesis
    by (auto simp: demoted_def get_post_def split: option.splits)
next
  case False
  then have "map_of (fst (move_to_drafts st pid') d) pid = map_of (fst st d) pid" for d
    using move_to_drafts_other [OF assms(1), of pid pid' d] by simp
  with assms(2) show ?thesis by (simp add: get_post_None)
qed

lemma wf_foldl_move_to_drafts:
  "wf_store (fst st) \<Longrightarrow> wf_store (fst (foldl move_to_drafts st pids))"
  by (induction pids arbitrary: st) (simp_all add: wf_move_to_drafts)

lemma foldl_move_keeps_demoted:
  "wf_store (fst st) \<Longrightarrow> demoted (fst st) pid \<Longrightarrow> demoted (fst (foldl move_to_drafts st pids)) pid"
  by (induction pids arbitrary: st) (simp_all add: wf_move_to_drafts move_to_drafts_keeps_demoted)

lemma foldl_move_demotes:
  "wf_store (fst st) \<Longrightarrow> get_post (fst st) pid \<noteq> None \<Longrightarrow> pid \<in> set pids \<Longrightarrow>
   demoted (fst (foldl move_to_drafts st pids)) pid"
proof (induction pids arbitrary: st)
  case Nil
  then show ?case by simp
next
  case (Cons x xs)
  show ?case
  proof (cases "x = pid")
    case True
    from move_to_drafts_demotes [OF Cons.prems(1,2)] True
    have "demoted (fst (move_to_drafts st x)) pid" by simp
    from foldl_move_keeps_demoted [OF wf_move_to_drafts [OF Cons.prems(1)] this]
    show ?thesis by simp
  next
    case False
    with Cons.prems(3) have "pid \<in> set xs" by simp
    from Cons.IH [OF wf_move_to_drafts [OF Cons.prems(1)]
        move_to_drafts_keeps_existing [OF Cons.prems(1,2)] this]
    show ?thesis by simp
  qed
qed

lemma foldl_move_other:
  "wf_store (fst st) \<Longrightarrow> k \<notin> set pids \<Longrightarrow>
   map_of (fst (foldl move_to_drafts st pids) d) k = map_of (fst st d) k"
  by (induction pids arbitrary: st) (simp_all add: wf_move_to_drafts move_to_drafts_other)

text \<open>The publishing loop.\<close>

lemma foldl_publish_other:
  "wf_store (fst st) \<Longrightarrow> k \<notin> post_id ` fst ` set xs \<Longrightarrow>
   map_of (fst (foldl (\<lambda>st' (p, t). publisher_publish_post lower now_iso (attempt (fst st') p) p st')
                  st xs) d) k
     = map_of (fst st d) k"
proof (induction xs arbitrary: st)
  case Nil
  then show ?case by simp
next
  case (Cons x xs)
  obtain p t where x: "x = (p, t)" by (cases x)
  let ?st1 = "publisher_publish_post lower now_iso (attempt (fst st) p) p st"
  from Cons.prems(2) x have ne: "k \<noteq> post_id p" and rest: "k \<notin> post_id ` fst ` set xs" by auto
  have w: "wf_store (fst ?st1)" using Cons.prems(1) by (rule wf_publisher_publish_post)
  from Cons.IH [OF w rest] publisher_publish_post_other [OF Cons.prems(1) ne] x
  show ?case by simp
qed

lemma demoted_get_post:
  "demoted s pid \<Longrightarrow>
   map_option (\<lambda>q. (status q, scheduled_time q, error q)) (get_post s pid)
     = Some (POST_STATUS_DRAFT, None, Some missed_note)"
  by (auto simp: demoted_def get_post_def split: option.splits)

text \<open>A successful upload in the publishing loop.\<close>

lemma map_mark_marks:
  "list_all (\<lambda>item. entry_post_id item = pid \<longrightarrow> entry_status item = ''published'')
     (map (\<lambda>item. if entry_post_id item = pid
                    then item\<lparr>entry_status := ''published''\<rparr> else item) items)"
  by (induction items) simp_all

lemma map_mark_keeps_marks:
  "list_all (\<lambda>item. entry_post_id item = pid \<longrightarrow> entry_status item = ''published'') items \<Longrightarrow>
   list_all (\<lambda>item. entry_post_id item = pid \<longrightarrow> entry_status item = ''published'')
     (map (\<lambda>item. if entry_post_id item = pid'
                    then item\<lparr>entry_status := ''published''\<rparr> else item) items)"
  by (induction items) simp_all

lemma mark_as_published_marks:
  "list_all (\<lambda>item. entry_post_id item = pid \<longrightarrow> entry_status item = ''published'')
     (get_scheduled_posts_for_account (mark_as_published pid sch) account)"
  by (cases "sch account")
     (simp_all add: mark_as_published_def get_scheduled_posts_for_account_def map_mark_marks)

lemma mark_as_published_keeps_marks:
  assumes "list_all (\<lambda>item. entry_post_id item = pid \<longrightarrow> entry_status item = ''published'')
     (get_scheduled_posts_for_account sch account)"
  shows "list_all (\<lambda>item. entry_post_id item = pid \<longrightarrow> entry_status item = ''published'')
     (get_scheduled_posts_for_account (mark_as_published pid' sch) account)"
  using assms
  by (cases "sch account")
     (simp_all add: mark_as_published_def get_scheduled_posts_for_account_def map_mark_keeps_marks)

lemma publish_post_scheduled:
  assumes "map_of (s DRAFTS_DIR) (post_id p) = None" "map_of (s SCHEDULED_DIR) (post_id p) = Some p"
    "status p = POST_STATUS_SCHEDULED"
  shows "snd (publish_post now_iso (post_id p) s)
           = save_post (p\<lparr>status := POST_STATUS_PUBLISHED, published_at := Some now_iso\<rparr>)
               (delete_post_file (post_id p) POST_STATUS_SCHEDULED s)"
proof -
  from assms(1,2) have "get_post s (post_id p) = Some p" by (simp add: get_post_def)
  with assms(3) show ?thesis by (simp add: publish_post_def Let_def)
qed

lemma publish_uploaded_publishes:
  assumes "map_of (fst st DRAFTS_DIR) (post_id p) = None"
    "map_of (fst st SCHEDULED_DIR) (post_id p) = Some p"
    "status p = POST_STATUS_SCHEDULED"
  shows "published_by_tick now_iso p (publisher_publish_post lower now_iso Uploaded p st)"
proof -
  have e: "fst (publisher_publish_post lower now_iso Uploaded p st)
          = save_post (p\<lparr>status := POST_STATUS_PUBLISHED, published_at := Some now_iso\<rparr>)
               (delete_post_file (post_id p) POST_STATUS_SCHEDULED (fst st))"
    using publish_post_scheduled [OF assms] by (simp add: publisher_publish_post_def)
  have m: "snd (publisher_publish_post lower now_iso Uploaded p st)
          = mark_as_published (post_id p) (snd st)"
    by (simp add: publisher_publish_post_def)
  show ?thesis
    unfolding published_by_tick_def e m
    using assms(1)
    by (simp add: map_of_save_post map_of_delete_post_file mark_as_published_marks)
qed

lemma publish_post_published:
  assumes "map_of (s DRAFTS_DIR) (post_id p) = None" "map_of (s SCHEDULED_DIR) (post_id p) = None"
    "map_of (s PUBLISHED_DIR) (post_id p)
       = Some (p\<lparr>status := POST_STATUS_PUBLISHED, published_at := Some now_iso\<rparr>)"
  shows "snd (publish_post now_iso (post_id p) s)
           = save_post (p\<lparr>status := POST_STATUS_PUBLISHED, published_at := Some now_iso\<rparr>) s"
proof -
  from assms have "get_post s (post_id p)
      = Some (p\<lparr>status := POST_STATUS_PUBLISHED, published_at := Some now_iso\<rparr>)"
    by (simp add: get_post_def)
  then show ?thesis by (simp add: publish_post_def Let_def)
qed

lemma publish_uploaded_again:
  assumes "published_by_tick now_iso p st"
  shows "published_by_tick now_iso p (publisher_publish_post lower now_iso Uploaded p st)"
proof -
  from assms have a: "map_of (fst st DRAFTS_DIR) (post_id p) = None"
    "map_of (fst st SCHEDULED_DIR) (post_id p) = None"
    "map_of (fst st PUBLISHED_DIR) (post_id p)
       = Some (p\<lparr>status := POST_STATUS_PUBLISHED, published_at := Some now_iso\<rparr>)"
    by (simp_all add: published_by_tick_def)
  have e: "fst (publisher_publish_post lower now_iso Uploaded p st)
          = save_post (p\<lparr>status := POST_STATUS_PUBLISHED, published_at := Some now_iso\<rparr>) (fst st)"
    using publish_post_published [OF a] by (simp add: publisher_publish_post_def)
  have m: "snd (publisher_publish_post lower now_iso Uploaded p st)
          = mark_as_published (post_id p) (snd st)"
    by (simp add: publisher_publish_post_def)
  show ?thesis
    unfolding published_by_tick_def e m
    using a by (simp add: map_of_save_post mark_as_published_marks)
qed

lemma publish_other_keeps_published:
  assumes "wf_store (fst st)" "published_by_tick now_iso p st" "post_id q \<noteq> post_id p"
  shows "published_by_tick now_iso p (publisher_publish_post lower now_iso res q st)"
proof -
  have f: "map_of (fst (publisher_publish_post lower now_iso res q st) d) (post_id p)
             = map_of (fst st d) (post_id p)" for d
    using publisher_publish_post_other [OF assms(1), of "post_id p" q] assms(3) by simp
  have m: "list_all (\<lambda>item. entry_post_id item = post_id p \<longrightarrow> entry_status item = ''published'')
             (get_scheduled_posts_for_account
                (snd (publisher_publish_post lower now_iso res q st)) account)" for account
    using assms(2)
    by (cases res)
       (auto simp: publisher_publish_post_def published_by_tick_def mark_as_published_keeps_marks)
  from assms(2) f m show ?thesis by (simp add: published_by_tick_def)
qed

lemma foldl_publish_publishes:
  assumes up: "\<And>s'. attempt s' p = Uploaded"
    and sp: "status p = POST_STATUS_SCHEDULED"
  shows "wf_store (fst st) \<Longrightarrow>
         (\<And>q u. (q, u) \<in> set xs \<Longrightarrow> post_id q = post_id p \<Longrightarrow> q = p) \<Longrightarrow>
         (map_of (fst st DRAFTS_DIR) (post_id p) = None
            \<and> map_of (fst st SCHEDULED_DIR) (post_id p) = Some p \<and> p \<in> fst ` set xs)
           \<or> published_by_tick now_iso p st \<Longrightarrow>
         published_by_tick now_iso p
           (foldl (\<lambda>st' (p, t). publisher_publish_post lower now_iso (attempt (fst st') p) p st')
              st xs)"
proof (induction xs arbitrary: st)
  case Nil
  then show ?case by auto
next
  case (Cons x xs)
  obtain q u where x: "x = (q, u)" by (cases x)
  let ?st1 = "publisher_publish_post lower now_iso (attempt (fst st) q) q st"
  have w: "wf_store (fst ?st1)" using Cons.prems(1) by (rule wf_publisher_publish_post)
  have inj: "\<And>q' u'. (q', u') \<in> set xs \<Longrightarrow> post_id q' = post_id p \<Longrightarrow> q' = p"
    using Cons.prems(2) by auto
  have step: "(map_of (fst ?st1 DRAFTS_DIR) (post_id p) = None
            \<and> map_of (fst ?st1 SCHEDULED_DIR) (post_id p) = Some p \<and> p \<in> fst ` set xs)
           \<or> published_by_tick now_iso p ?st1"
  proof (cases "post_id q = post_id p")
    case True
    with Cons.prems(2) [of q u] x have qp: "q = p" by simp
    from Cons.prems(3) show ?thesis
    proof
      assume "map_of (fst st DRAFTS_DIR) (post_id p) = None
            \<and> map_of (fst st SCHEDULED_DIR) (post_id p) = Some p \<and> p \<in> fst ` set (x # xs)"
      then have "published_by_tick now_iso p (publisher_publish_post lower now_iso Uploaded p st)"
        using sp by (intro publish_uploaded_publishes) simp_all
      then show ?thesis using up qp by simp
    next
      assume "published_by_tick now_iso p st"
      then have "published_by_tick now_iso p (publisher_publish_post lower now_iso Uploaded p st)"
        by (rule publish_uploaded_again)
      then show ?thesis using up qp by simp
    qed
  next
    case False
    have f: "map_of (fst ?st1 d) (post_id p) = map_of (fst st d) (post_id p)" for d
      using publisher_publish_post_other [OF Cons.prems(1), of "post_id p" q] False by simp
    from Cons.prems(3) show ?thesis
    proof
      assume a: "map_of (fst st DRAFTS_DIR) (post_id p) = None
            \<and> map_of (fst st SCHEDULED_DIR) (post_id p) = Some p \<and> p \<in> fst ` set (x # xs)"
      with x False have "p \<in> fst ` set xs" by auto
      then show ?thesis using a f by simp
    next
      assume "published_by_tick now_iso p st"
      from publish_other_keeps_published [OF Cons.prems(1) this False] show ?thesis by simp
    qed
  qed
  from Cons.IH [OF w inj step] x show ?case by simp
qed

text \<open>
  C3. Take a well-formed store and a post of the scheduled listing whose scheduled time
  parses to the naive time \<open>t\<close>, and let \<open>time_diff = now - t\<close> in seconds. If
  \<open>time_diff > 3600\<close> (STALE) the scan puts the post on the list to move to the drafts
  and not on the list to publish, and after the tick the post has no file in the
  scheduled directory and is found in DRAFT status, without scheduled time and with the
  note about the missed publication. If \<open>-120 \<le> time_diff \<le> 3600\<close> (DUE) the scan puts
  the post, with its time, on the list to publish in this tick and not on the list to
  move, and the tick publishes it: when the post is in SCHEDULED status, has no file in
  the drafts directory and its upload succeeds, then after the tick its file is in the
  published directory with status PUBLISHED and the publication time of the tick, the
  scheduled file is gone, \<open>get_post\<close> finds the published record, and its schedule
  entries are marked published. If \<open>time_diff < -120\<close> (PENDING) the post is on neither
  list and the tick leaves its files in all three directories as they were. In
  particular 90 seconds late is DUE, 3700 seconds late is STALE, and 500 seconds early
  is PENDING; the bounds 3600 and -120 themselves are DUE.
\<close>

theorem check_and_publish_classification:
  assumes wf: "wf_store s"
    and p: "p \<in> set (get_scheduled_posts s)"
    and st: "scheduled_time p = Some str" "str \<noteq> []"
    and parse: "parse_iso_datetime fromisoformat strptime re_sub_millis str = Inr (Naive t)"
  shows
    "(spec_classification (total_seconds (now - t)) = STALE \<longrightarrow>
        post_id p \<in> set (snd (foldl (scan_post fromisoformat strptime re_sub_millis now) ([], [])
                              (get_scheduled_posts s)))
        \<and> p \<notin> fst ` set (fst (foldl (scan_post fromisoformat strptime re_sub_millis now) ([], [])
                              (get_scheduled_posts s)))
        \<and> map_of (fst (check_and_publish lower fromisoformat strptime re_sub_millis attempt now
                         now_iso (s, sch)) SCHEDULED_DIR) (post_id p) = None
        \<and> map_option (\<lambda>q. (status q, scheduled_time q, error q))
            (get_post (fst (check_and_publish lower fromisoformat strptime re_sub_millis attempt now
                         now_iso (s, sch))) (post_id p))
            = Some (POST_STATUS_DRAFT, None, Some missed_note))
     \<and> (spec_classification (total_seconds (now - t)) = DUE \<longrightarrow>
        (p, t) \<in> set (fst (foldl (scan_post fromisoformat strptime re_sub_millis now) ([], [])
                              (get_scheduled_posts s)))
        \<and> post_id p \<notin> set (snd (foldl (scan_post fromisoformat strptime re_sub_millis now) ([], [])
                              (get_scheduled_posts s)))
        \<and> (status p = POST_STATUS_SCHEDULED \<and> map_of (s DRAFTS_DIR) (post_id p) = None
             \<and> (\<forall>s'. attempt s' p = Uploaded) \<longrightarrow>
            map_of (fst (check_and_publish lower fromisoformat strptime re_sub_millis attempt now
                           now_iso (s, sch)) PUBLISHED_DIR) (post_id p)
              = Some (p\<lparr>status := POST_STATUS_PUBLISHED, published_at := Some now_iso\<rparr>)
            \<and> map_of (fst (check_and_publish lower fromisoformat strptime re_sub_millis attempt now
                           now_iso (s, sch)) SCHEDULED_DIR) (post_id p) = None
            \<and> get_post (fst (check_and_publish lower fromisoformat strptime re_sub_millis attempt now
                           now_iso (s, sch))) (post_id p)
              = Some (p\<lparr>status := POST_STATUS_PUBLISHED, published_at := Some now_iso\<rparr>)
            \<and> list_all (\<lambda>item. entry_post_id item = post_id p \<longrightarrow> entry_status item = ''published'')
                 (get_scheduled_posts_for_account
                    (snd (check_and_publish lower fromisoformat strptime re_sub_millis attempt now
                           now_iso (s, sch))) account)))
     \<and> (spec_classification (total_seconds (now - t)) = PENDING \<longrightarrow>
        p \<notin> fst ` set (fst (foldl (scan_post fromisoformat strptime re_sub_millis now) ([], [])
                              (get_scheduled_posts s)))
        \<and> post_id p \<notin> set (snd (foldl (scan_post fromisoformat strptime re_sub_millis now) ([], [])
                              (get_scheduled_posts s)))
        \<and> (\<forall>d. map_of (fst (check_and_publish lower fromisoformat strptime re_sub_millis attempt
                               now now_iso (s, sch)) d) (post_id p)
                 = map_of (s d) (post_id p)))
     \<and> spec_classification 90 = DUE \<and> spec_classification 3700 = STALE
     \<and> spec_classification (- 500) = PENDING
     \<and> spec_classification 3600 = DUE \<and> spec_classification (- 120) = DUE"
proof -
  let ?L = "get_scheduled_posts s"
  let ?scanned = "foldl (scan_post fromisoformat strptime re_sub_millis now) ([], []) ?L"
  let ?st1 = "foldl move_to_drafts (s, sch) (snd ?scanned)"
  let ?result = "check_and_publish lower fromisoformat strptime re_sub_millis attempt now now_iso (s, sch)"
  let ?c = "spec_classification (total_seconds (now - t))"
  have pt: "parsed_time fromisoformat strptime re_sub_millis p = Some t"
    using st parse by (simp add: parsed_time_def)
  have ne: "?L \<noteq> []" using p by auto
  have result: "?result =
      foldl (\<lambda>st' (p, t). publisher_publish_post lower now_iso (attempt (fst st') p) p st')
        ?st1 (fst ?scanned)"
    using ne by (simp add: check_and_publish_def Let_def)
  have pub_iff: "(q, u) \<in> set (fst ?scanned) \<longleftrightarrow>
      q \<in> set ?L \<and> parsed_time fromisoformat strptime re_sub_millis q = Some u
      \<and> spec_classification (total_seconds (now - u)) = DUE" for q u
    by (simp add: scan_fold_publish)
  have mv_iff: "k \<in> set (snd ?scanned) \<longleftrightarrow>
      (\<exists>q u. k = post_id q \<and> q \<in> set ?L \<and> parsed_time fromisoformat strptime re_sub_millis q = Some u
         \<and> spec_classification (total_seconds (now - u)) = STALE)" for k
    by (simp add: scan_fold_drafts)
  have in_pub: "p \<in> fst ` set (fst ?scanned) \<longleftrightarrow> ?c = DUE"
    using pt p pub_iff by force
  have in_mv: "post_id p \<in> set (snd ?scanned) \<longleftrightarrow> ?c = STALE"
  proof
    assume "post_id p \<in> set (snd ?scanned)"
    then obtain q u where q: "post_id p = post_id q" "q \<in> set ?L"
      "parsed_time fromisoformat strptime re_sub_millis q = Some u"
      "spec_classification (total_seconds (now - u)) = STALE"
      using mv_iff by blast
    from scheduled_listing_inj [OF wf p q(2)] q(1) have "q = p" by simp
    with q(3,4) pt show "?c = STALE" by simp
  next
    assume "?c = STALE"
    with pt p mv_iff show "post_id p \<in> set (snd ?scanned)" by blast
  qed
  have other_pub: "post_id p \<notin> post_id ` fst ` set (fst ?scanned)" if "?c \<noteq> DUE"
  proof
    assume "post_id p \<in> post_id ` fst ` set (fst ?scanned)"
    then obtain q u where q: "(q, u) \<in> set (fst ?scanned)" "post_id q = post_id p" by force
    from q(1) pub_iff have qL: "q \<in> set ?L" by blast
    from scheduled_listing_inj [OF wf p qL q(2)] have "q = p" .
    with q(1) have "p \<in> fst ` set (fst ?scanned)" by force
    with in_pub that show False by simp
  qed
  have wf1: "wf_store (fst ?st1)" using wf by (intro wf_foldl_move_to_drafts) simp
  have frame_pub: "map_of (fst ?result d) (post_id p) = map_of (fst ?st1 d) (post_id p)"
    if "?c \<noteq> DUE" for d
    unfolding result by (rule foldl_publish_other [OF wf1 other_pub [OF that]])
  have stale: "map_of (fst ?result SCHEDULED_DIR) (post_id p) = None
      \<and> map_option (\<lambda>q. (status q, scheduled_time q, error q)) (get_post (fst ?result) (post_id p))
            = Some (POST_STATUS_DRAFT, None, Some missed_note)" if c: "?c = STALE"
  proof -
    have ex: "get_post (fst (s, sch)) (post_id p) \<noteq> None"
      using scheduled_listing_map_of [OF wf p] by (auto simp: get_post_None)
    have "demoted (fst ?st1) (post_id p)"
      using wf ex in_mv c by (intro foldl_move_demotes) simp_all
    moreover have "?c \<noteq> DUE" using c by simp
    ultimately have "demoted (fst ?result) (post_id p)"
      using frame_pub by (simp add: demoted_def)
    then show ?thesis using demoted_get_post by (simp add: demoted_def)
  qed
  have pending: "map_of (fst ?result d) (post_id p) = map_of (s d) (post_id p)"
    if c: "?c = PENDING" for d
  proof -
    have "post_id p \<notin> set (snd ?scanned)" using in_mv c by simp
    then have "map_of (fst ?st1 d) (post_id p) = map_of (s d) (post_id p)"
      using foldl_move_other [of "(s, sch)" "post_id p" "snd ?scanned" d] wf by simp
    moreover have "?c \<noteq> DUE" using c by simp
    ultimately show ?thesis using frame_pub by simp
  qed
  have due: "(p, t) \<in> set (fst ?scanned)" if "?c = DUE"
    using that pt p pub_iff by blast
  have examples: "spec_classification 90 = DUE \<and> spec_classification 3700 = STALE
     \<and> spec_classification (- 500) = PENDING
     \<and> spec_classification 3600 = DUE \<and> spec_classification (- 120) = DUE"
    by (simp add: spec_classification_def)
  have published: "map_of (fst ?result PUBLISHED_DIR) (post_id p)
              = Some (p\<lparr>status := POST_STATUS_PUBLISHED, published_at := Some now_iso\<rparr>)
            \<and> map_of (fst ?result SCHEDULED_DIR) (post_id p) = None
            \<and> get_post (fst ?result) (post_id p)
              = Some (p\<lparr>status := POST_STATUS_PUBLISHED, published_at := Some now_iso\<rparr>)
            \<and> list_all (\<lambda>item. entry_post_id item = post_id p \<longrightarrow> entry_status item = ''published'')
                 (get_scheduled_posts_for_account (snd ?result) account)"
    if c: "?c = DUE" and sp: "status p = POST_STATUS_SCHEDULED"
      and nd: "map_of (s DRAFTS_DIR) (post_id p) = None"
      and up: "\<forall>s'. attempt s' p = Uploaded"
  proof -
    have nm: "post_id p \<notin> set (snd ?scanned)" using in_mv c by simp
    have same: "map_of (fst ?st1 d) (post_id p) = map_of (s d) (post_id p)" for d
      using foldl_move_other [of "(s, sch)" "post_id p" "snd ?scanned" d] wf nm by simp
    have start: "map_of (fst ?st1 DRAFTS_DIR) (post_id p) = None
        \<and> map_of (fst ?st1 SCHEDULED_DIR) (post_id p) = Some p
        \<and> p \<in> fst ` set (fst ?scanned)"
      using same nd scheduled_listing_map_of [OF wf p] in_pub c by simp
    have inj: "q = p" if "(q, u) \<in> set (fst ?scanned)" "post_id q = post_id p" for q u
    proof -
      from that(1) pub_iff have "q \<in> set ?L" by blast
      from scheduled_listing_inj [OF wf p this that(2)] show ?thesis .
    qed
    have "published_by_tick now_iso p ?result"
      unfolding result
    proof (rule foldl_publish_publishes [where attempt = attempt and p = p])
      show "attempt s' p = Uploaded" for s' using up by simp
      show "status p = POST_STATUS_SCHEDULED" by (rule sp)
      show "wf_store (fst ?st1)" by (rule wf1)
      show "q = p" if "(q, u) \<in> set (fst ?scanned)" "post_id q = post_id p" for q u
        using that by (rule inj)
      show "map_of (fst ?st1 DRAFTS_DIR) (post_id p) = None
              \<and> map_of (fst ?st1 SCHEDULED_DIR) (post_id p) = Some p
              \<and> p \<in> fst ` set (fst ?scanned)
            \<or> published_by_tick now_iso p ?st1"
        using start by blast
    qed
    then show ?thesis
      by (simp add: published_by_tick_def get_post_def)
  qed
  show ?thesis
    using stale pending due in_pub in_mv examples published by simp
qed

theorem check_and_publish_classification_witness:
  "wf_store store3
   \<and> post_stale \<in> set (get_scheduled_posts store3)
   \<and> post_due \<in> set (get_scheduled_posts store3)
   \<and> post_pending \<in> set (get_scheduled_posts store3)
   \<and> total_seconds (six_pm - mk_datetime 739549 16 58 20 0) = 3700
   \<and> total_seconds (six_pm - mk_datetime 739549 17 58 30 0) = 90
   \<and> total_seconds (six_pm - mk_datetime 739549 18 8 20 0) = - 500
   \<and> map_option (\<lambda>q. (status q, scheduled_time q, error q))
        (get_post (fst (check_and_publish sample_lower sample_fromisoformat sample_strptime
                          sample_re_sub_millis always_uploaded six_pm ''2025-10-25T18:00:05''
                          (store3, Map.empty))) (post_id post_stale))
        = Some (POST_STATUS_DRAFT, None, Some missed_note)
   \<and> (post_due, mk_datetime 739549 17 58 30 0)
        \<in> set (fst (foldl (scan_post sample_fromisoformat sample_strptime sample_re_sub_millis six_pm)
                       ([], []) (get_scheduled_posts store3)))
   \<and> status post_due = POST_STATUS_SCHEDULED
   \<and> map_of (store3 DRAFTS_DIR) (post_id post_due) = None
   \<and> map_of (fst (check_and_publish sample_lower sample_fromisoformat sample_strptime
                          sample_re_sub_millis always_uploaded six_pm ''2025-10-25T18:00:05''
                          (store3, Map.empty)) PUBLISHED_DIR) (post_id post_due)
        = Some (post_due\<lparr>status := POST_STATUS_PUBLISHED,
                          published_at := Some ''2025-10-25T18:00:05''\<rparr>)
   \<and> map_of (fst (check_and_publish sample_lower sample_fromisoformat sample_strptime
                          sample_re_sub_millis always_uploaded six_pm ''2025-10-25T18:00:05''
                          (store3, Map.empty)) SCHEDULED_DIR) (post_id post_due) = None
   \<and> map_of (fst (check_and_publish sample_lower sample_fromisoformat sample_strptime
                          sample_re_sub_millis always_uploaded six_pm ''2025-10-25T18:00:05''
                          (store3, Map.empty)) SCHEDULED_DIR) (post_id post_pending)
        = map_of (store3 SCHEDULED_DIR) (post_id post_pending)"
proof -
  have u1: "status post_due = POST_STATUS_SCHEDULED" by (simp add: post_due_def post1_def)
  have u2: "map_of (store3 DRAFTS_DIR) (post_id post_due) = None" by code_simp
  have u3: "\<forall>s'. always_uploaded s' post_due = Uploaded" by (simp add: always_uploaded_def)
  have w: "wf_store store3" by code_simp
  have m1: "post_stale \<in> set (get_scheduled_posts store3)" by code_simp
  have m2: "post_due \<in> set (get_scheduled_posts store3)" by code_simp
  have m3: "post_pending \<in> set (get_scheduled_posts store3)" by code_simp
  have s1: "scheduled_time post_stale = Some ''2025-10-25T16:58:20''"
    by (simp add: post_stale_def post1_def)
  have s2: "scheduled_time post_due = Some ''2025-10-25T17:58:30''"
    by (simp add: post_due_def post1_def)
  have s3: "scheduled_time post_pending = Some ''2025-10-25T18:08:20''"
    by (simp add: post_pending_def post1_def)
  have n1: "''2025-10-25T16:58:20'' \<noteq> []" and n2: "''2025-10-25T17:58:30'' \<noteq> []"
    and n3: "''2025-10-25T18:08:20'' \<noteq> []"
    by simp_all
  have p1: "parse_iso_datetime sample_fromisoformat sample_strptime sample_re_sub_millis
             ''2025-10-25T16:58:20'' = Inr (Naive (mk_datetime 739549 16 58 20 0))"
    by code_simp
  have p2: "parse_iso_datetime sample_fromisoformat sample_strptime sample_re_sub_millis
             ''2025-10-25T17:58:30'' = Inr (Naive (mk_datetime 739549 17 58 30 0))"
    by code_simp
  have p3: "parse_iso_datetime sample_fromisoformat sample_strptime sample_re_sub_millis
             ''2025-10-25T18:08:20'' = Inr (Naive (mk_datetime 739549 18 8 20 0))"
    by code_simp
  have d1: "total_seconds (six_pm - mk_datetime 739549 16 58 20 0) = 3700" by code_simp
  have d2: "total_seconds (six_pm - mk_datetime 739549 17 58 30 0) = 90" by code_simp
  have d3: "total_seconds (six_pm - mk_datetime 739549 18 8 20 0) = - 500" by code_simp
  have c1: "spec_classification (total_seconds (six_pm - mk_datetime 739549 16 58 20 0)) = STALE"
    unfolding d1 by (simp add: spec_classification_def)
  have c2: "spec_classification (total_seconds (six_pm - mk_datetime 739549 17 58 30 0)) = DUE"
    unfolding d2 by (simp add: spec_classification_def)
  have c3: "spec_classification (total_seconds (six_pm - mk_datetime 739549 18 8 20 0)) = PENDING"
    unfolding d3 by (simp add: spec_classification_def)
  note T1 = check_and_publish_classification [OF w m1 s1 n1 p1, where now = six_pm
      and lower = sample_lower and attempt = always_uploaded
      and now_iso = "''2025-10-25T18:00:05''" and sch = Map.empty]
  note T2 = check_and_publish_classification [OF w m2 s2 n2 p2, where now = six_pm
      and lower = sample_lower and attempt = always_uploaded
      and now_iso = "''2025-10-25T18:00:05''" and sch = Map.empty]
  note T3 = check_and_publish_classification [OF w m3 s3 n3 p3, where now = six_pm
      and lower = sample_lower and attempt = always_uploaded
      and now_iso = "''2025-10-25T18:00:05''" and sch = Map.empty]
  from T1 c1 have r1: "map_option (\<lambda>q. (status q, scheduled_time q, error q))
        (get_post (fst (check_and_publish sample_lower sample_fromisoformat sample_strptime
                          sample_re_sub_millis always_uploaded six_pm ''2025-10-25T18:00:05''
                          (store3, Map.empty))) (post_id post_stale))
        = Some (POST_STATUS_DRAFT, None, Some missed_note)"
    by blast
  from T2 c2 have r2: "(post_due, mk_datetime 739549 17 58 30 0)
        \<in> set (fst (foldl (scan_post sample_fromisoformat sample_strptime sample_re_sub_millis six_pm)
                       ([], []) (get_scheduled_posts store3)))"
    by blast
  from T2 c2 u1 u2 u3 have r2p: "map_of (fst (check_and_publish sample_lower sample_fromisoformat
                          sample_strptime sample_re_sub_millis always_uploaded six_pm
                          ''2025-10-25T18:00:05'' (store3, Map.empty)) PUBLISHED_DIR)
                          (post_id post_due)
        = Some (post_due\<lparr>status := POST_STATUS_PUBLISHED,
                          published_at := Some ''2025-10-25T18:00:05''\<rparr>)"
    and r2s: "map_of (fst (check_and_publish sample_lower sample_fromisoformat
                          sample_strptime sample_re_sub_millis always_uploaded six_pm
                          ''2025-10-25T18:00:05'' (store3, Map.empty)) SCHEDULED_DIR)
                          (post_id post_due) = None"
    by blast+
  from T3 c3 have r3: "map_of (fst (check_and_publish sample_lower sample_fromisoformat sample_strptime
                          sample_re_sub_millis always_uploaded six_pm ''2025-10-25T18:00:05''
                          (store3, Map.empty)) SCHEDULED_DIR) (post_id post_pending)
        = map_of (store3 SCHEDULED_DIR) (post_id post_pending)"
    by blast
  from w m1 m2 m3 d1 d2 d3 r1 r2 r3 u1 u2 r2p r2s show ?thesis by blast
qed

end
